theory Spec2Isabelle
  imports Main "HOL-Library.Word"
begin

unbundle bit_operations_syntax

section \<open>Data model\<close>

text \<open>
  Go strings and byte slices are both sequences of bytes; \<open>[]byte(s)\<close> and
  \<open>string(b)\<close> copy the bytes unchanged, so both are byte lists here.
  \<open>str\<close> writes a Go string literal.
\<close>

type_synonym byte = "8 word"
type_synonym gostring = "byte list"

definition str :: "string \<Rightarrow> gostring" where
  "str s = map of_char s"

text \<open>\<open>type operation byte\<close> and its constants.\<close>

type_synonym operation = byte

abbreviation (input) opUNK :: operation where "opUNK \<equiv> 0"
abbreviation (input) opRRQ :: operation where "opRRQ \<equiv> 1"
abbreviation (input) opWRQ :: operation where "opWRQ \<equiv> 2"
abbreviation (input) opDATA :: operation where "opDATA \<equiv> 3"
abbreviation (input) opACK :: operation where "opACK \<equiv> 4"
abbreviation (input) opERROR :: operation where "opERROR \<equiv> 5"

text \<open>\<open>type errorCode uint16\<close> and its constants.\<close>

type_synonym errorCode = "16 word"

abbreviation (input) ecNDEF :: errorCode where "ecNDEF \<equiv> 0"
abbreviation (input) ecFNF :: errorCode where "ecFNF \<equiv> 1"
abbreviation (input) ecACV :: errorCode where "ecACV \<equiv> 2"
abbreviation (input) ecDSK :: errorCode where "ecDSK \<equiv> 3"
abbreviation (input) ecILL :: errorCode where "ecILL \<equiv> 4"
abbreviation (input) ecUTID :: errorCode where "ecUTID \<equiv> 5"
abbreviation (input) ecFEX :: errorCode where "ecFEX \<equiv> 6"
abbreviation (input) ecNOUS :: errorCode where "ecNOUS \<equiv> 7"

definition tftpErrors :: "gostring list" where
  "tftpErrors =
     [ str '''',
       str ''File not found.'',
       str ''Access violation.'',
       str ''Disk full or allocation exceeded.'',
       str ''Illegal TFTP operation.'',
       str ''Unknown transfer ID.'',
       str ''File already exists.'',
       str ''No such user.'' ]"

text \<open>
  Values of Go's \<open>error\<close> interface that occur in the server: a \<open>*tftpError\<close>
  (code and message), an error made by \<open>fmt.Errorf\<close>, the sentinel
  \<open>endOfSession\<close>, \<open>io.EOF\<close>, an error of the operating system on a file, and a
  failure of the socket. A run-time panic is not an error value; it ends the process.
\<close>

datatype oserror =
  ErrNotExist | ErrPermission | ENOSPC | ErrInvalid | ErrClosed | EBADF | EISDIR

record tftpError =
  code :: errorCode
  message :: gostring

datatype goerror =
    TftpError tftpError
  | Errorf gostring
  | EndOfSession
  | EOF
  | PathError oserror
  | NetError

datatype gopanic = IndexOutOfRange | SliceBounds | PanicErr goerror

record request =
  numRead :: int
  body :: "byte list"
  opcode :: operation
  number :: "16 word"
  filename :: gostring
  mode :: gostring
  errorMessage :: gostring

record response =
  opcode :: operation
  number :: "16 word"
  body :: "byte list"

text \<open>
  \<open>client.file\<close> is a \<open>*os.File\<close>: \<open>None\<close> is the nil pointer, \<open>Some h\<close> the
  open-file description \<open>h\<close> of the machine. \<open>blockSize\<close> only ever holds 0 (the zero
  value) or 512; \<open>bytesLeft\<close> is an \<open>int64\<close>.
\<close>

record client =
  tid :: string
  "file" :: "nat option"
  inited :: bool
  lastPkt :: bool
  blockSize :: nat
  bytesLeft :: "64 word"

record osfile =
  path :: gostring
  offset :: nat
  writable :: bool
  closed :: bool

text \<open>
  The state the server runs in. \<open>connections\<close> is the map of \<open>TFTPServer\<close>, from
  \<open>addr.String()\<close> to a pointer; \<open>clients\<close> is the store those pointers point
  into (\<open>nclients\<close> the next free address), so that an update through \<open>cli\<close> is seen
  through the table, and an object deleted from the table still exists. The rest is
  the environment: the regular files by name, the directories, the names the system
  refuses to open or to create, the free space of the disk in bytes, the open-file descriptions, the outcome of the next
  socket writes (\<open>True\<close> a success, none listed a success) and the datagrams sent.
\<close>

record machine =
  connections :: "string \<rightharpoonup> nat"
  clients :: "nat \<Rightarrow> client"
  nclients :: nat
  files :: "gostring \<rightharpoonup> byte list"
  dirs :: "gostring list"
  denied :: "gostring list"
  free :: nat
  fds :: "nat \<Rightarrow> osfile"
  nfds :: nat
  sendq :: "bool list"
  outbox :: "(string \<times> byte list) list"

section \<open>The environment: files and the socket\<close>

text \<open>
  A name is a regular file when \<open>files\<close> holds its content, and a directory when it
  holds none and the name is listed in \<open>dirs\<close>. \<open>Stat\<close> needs no permission on the
  name itself. \<open>Open\<close> of a name that does not exist reports that before any
  permission; \<open>Create\<close> makes or empties a regular file, and is refused on a denied
  name and on a directory. No file is ever removed, so an open-file description whose
  name has no content is one of a directory.
\<close>

definition pathExists :: "machine \<Rightarrow> gostring \<Rightarrow> bool" where
  "pathExists m name = (files m name \<noteq> None \<or> name \<in> set (dirs m))"

definition os_Stat :: "machine \<Rightarrow> gostring \<Rightarrow> goerror option" where
  "os_Stat m name = (if pathExists m name then None else Some (PathError ErrNotExist))"

definition os_Open :: "machine \<Rightarrow> gostring \<Rightarrow> (goerror + nat) \<times> machine" where
  "os_Open m name =
     (if \<not> pathExists m name then (Inl (PathError ErrNotExist), m)
      else if name \<in> set (denied m) then (Inl (PathError ErrPermission), m)
      else (Inr (nfds m),
            m\<lparr>fds := (fds m)(nfds m := \<lparr>path = name, offset = 0, writable = False, closed = False\<rparr>),
              nfds := Suc (nfds m)\<rparr>))"

definition os_Create :: "machine \<Rightarrow> gostring \<Rightarrow> (goerror + nat) \<times> machine" where
  "os_Create m name =
     (if name \<in> set (denied m) then (Inl (PathError ErrPermission), m)
      else if files m name = None \<and> name \<in> set (dirs m) then (Inl (PathError EISDIR), m)
      else (Inr (nfds m),
            m\<lparr>files := (files m)(name \<mapsto> []),
              fds := (fds m)(nfds m := \<lparr>path = name, offset = 0, writable = True, closed = False\<rparr>),
              nfds := Suc (nfds m)\<rparr>))"

definition content :: "machine \<Rightarrow> nat \<Rightarrow> byte list" where
  "content m h = (case files m (path (fds m h)) of None \<Rightarrow> [] | Some c \<Rightarrow> c)"

text \<open>
  The size \<open>f.Stat()\<close> reports. For a directory it is the system's own number; it
  is taken as 0 here, and nothing depends on it, since \<open>Read\<close> fails on a directory
  before \<open>bytesLeft\<close> is looked at.
\<close>

definition file_Stat :: "machine \<Rightarrow> nat \<Rightarrow> goerror + nat" where
  "file_Stat m h =
     (if closed (fds m h) then Inl (PathError ErrClosed) else Inr (length (content m h)))"

definition file_Read :: "machine \<Rightarrow> nat option \<Rightarrow> nat \<Rightarrow> (byte list \<times> goerror option) \<times> machine" where
  "file_Read m f len =
     (case f of
        None \<Rightarrow> (([], Some (PathError ErrInvalid)), m)
      | Some h \<Rightarrow>
          if closed (fds m h) then (([], Some (PathError ErrClosed)), m)
          else if len = 0 then (([], None), m)
          else if files m (path (fds m h)) = None then (([], Some (PathError EISDIR)), m)
          else
            let data = take len (drop (offset (fds m h)) (content m h))
            in if data = [] then (([], Some EOF), m)
               else ((data, None),
                     m\<lparr>fds := (fds m)(h := (fds m h)\<lparr>offset := offset (fds m h) + length data\<rparr>)\<rparr>))"

definition file_Close :: "machine \<Rightarrow> nat option \<Rightarrow> machine" where
  "file_Close m f =
     (case f of
        None \<Rightarrow> m
      | Some h \<Rightarrow> m\<lparr>fds := (fds m)(h := (fds m h)\<lparr>closed := True\<rparr>)\<rparr>)"

text \<open>
  \<open>io.Copy(cli.file, bytes.NewReader(data))\<close>: the reader writes itself with one call
  of \<open>Write\<close>, and with none when it is empty.
\<close>

definition io_Copy :: "machine \<Rightarrow> nat option \<Rightarrow> byte list \<Rightarrow> goerror option \<times> machine" where
  "io_Copy m f data =
     (if data = [] then (None, m)
      else case f of
        None \<Rightarrow> (Some (PathError ErrInvalid), m)
      | Some h \<Rightarrow>
          if closed (fds m h) then (Some (PathError ErrClosed), m)
          else if \<not> writable (fds m h) then (Some (PathError EBADF), m)
          else
            let w = take (free m) data;
                c = content m h;
                off = offset (fds m h);
                c' = take off (c @ replicate (off - length c) 0) @ w @ drop (off + length w) c
            in (if length w < length data then Some (PathError ENOSPC) else None,
                m\<lparr>files := (files m)(path (fds m h) \<mapsto> c'),
                  free := free m - length w,
                  fds := (fds m)(h := (fds m h)\<lparr>offset := off + length w\<rparr>)\<rparr>))"

definition WriteTo :: "machine \<Rightarrow> byte list \<Rightarrow> string \<Rightarrow> goerror option \<times> machine" where
  "WriteTo m pkt addr =
     (case sendq m of
        [] \<Rightarrow> (None, m\<lparr>outbox := outbox m @ [(addr, pkt)]\<rparr>)
      | ok # rest \<Rightarrow>
          if ok then (None, m\<lparr>sendq := rest, outbox := outbox m @ [(addr, pkt)]\<rparr>)
          else (Some NetError, m\<lparr>sendq := rest\<rparr>))"

section \<open>util.go\<close>

definition toCString :: "gostring \<Rightarrow> byte list" where
  "toCString src = src @ [0]"

text \<open>The loop of \<open>readCString\<close>: \<open>for ; end < len(src) && src[end] != 0; end++ {}\<close>.\<close>

function scan :: "byte list \<Rightarrow> nat \<Rightarrow> nat" where
  "scan src e = (if e < length src \<and> src ! e \<noteq> 0 then scan src (e + 1) else e)"
  by pat_completeness auto
termination
  by (relation "measure (\<lambda>(src, e). length src - e)") auto

declare scan.simps [simp del]

definition readCString :: "byte list \<Rightarrow> goerror + (nat \<times> gostring)" where
  "readCString src =
     (let e = scan src 0
      in if e \<ge> length src then Inl (Errorf (str ''Incorrect c string''))
         else Inr (e + 1, take e src))"

section \<open>The server\<close>

text \<open>\<open>strings.Join\<close>.\<close>

fun Join :: "gostring list \<Rightarrow> gostring \<Rightarrow> gostring" where
  "Join [] sep = []"
| "Join [x] sep = x"
| "Join (x # y # ys) sep = x @ sep @ Join (y # ys) sep"

definition newTFTPError :: "errorCode \<Rightarrow> gostring list \<Rightarrow> tftpError" where
  "newTFTPError code0 clientMessage =
     (let c = (if code0 > ecNOUS then ecNDEF else code0);
          msg = tftpErrors ! unat c;
          msg = (if c = ecNDEF then Join clientMessage (str '' '') else msg)
      in \<lparr>code = c, message = msg\<rparr>)"

text \<open>\<open>binary.BigEndian.Uint16\<close> and \<open>binary.BigEndian.PutUint16\<close>.\<close>

definition Uint16 :: "byte \<Rightarrow> byte \<Rightarrow> 16 word" where
  "Uint16 b0 b1 = ucast b1 OR push_bit 8 (ucast b0)"

definition PutUint16 :: "16 word \<Rightarrow> byte list" where
  "PutUint16 v = [ucast (drop_bit 8 v), ucast v]"

abbreviation (input) hdrsize :: int where "hdrsize \<equiv> 4"

text \<open>The message \<open>fmt.Sprintf\<close> makes for a mode other than \<open>octet\<close>.\<close>

definition incorrectMode :: "gostring \<Rightarrow> gostring" where
  "incorrectMode md =
     str ''Incorrect mode '' @ [39] @ md @ [39] @ str ''. This server supports only ''
       @ [39] @ str ''octet'' @ [39] @ str '' mode.''"

text \<open>
  \<open>newRequest\<close>. An index or a slice bound out of range is a run-time panic; the
  buffer is taken to have its capacity equal to its length, as the one
  \<open>ListenAndServe\<close> makes has. \<open>numRead\<close> is an \<open>int\<close> of 64 bits; the only
  arithmetic on it is \<open>numRead - hdrsize\<close>, which where it wraps gives a bound
  beyond every capacity and panics as the negative bound does here.
\<close>

definition newRequest :: "int \<Rightarrow> byte list \<Rightarrow> gopanic + (goerror + request)" where
  "newRequest nRead buf =
     (if length buf < 2 then Inl IndexOutOfRange
      else
        let opc = buf ! 1; b = drop 2 buf;
            req = \<lparr>numRead = nRead, request.body = b, request.opcode = opc, request.number = 0,
                   filename = [], mode = [], errorMessage = []\<rparr>
        in
        if opc = opRRQ \<or> opc = opWRQ then
          (case readCString b of
             Inl err \<Rightarrow> Inr (Inl err)
           | Inr (n, fname) \<Rightarrow>
               (case readCString (drop n b) of
                  Inl err \<Rightarrow> Inr (Inl err)
                | Inr (n', md) \<Rightarrow>
                    if md \<noteq> str ''octet'' then Inr (Inl (TftpError (newTFTPError ecNDEF [incorrectMode md])))
                    else Inr (Inr (req\<lparr>filename := fname, mode := md,
                                       request.body := drop n' (drop n b)\<rparr>))))
        else if opc = opDATA \<or> opc = opACK then
          (if length b < 2 then Inl SliceBounds
           else if nRead - hdrsize < 0 \<or> int (length (drop 2 b)) < nRead - hdrsize then Inl SliceBounds
           else Inr (Inr (req\<lparr>request.number := Uint16 (b ! 0) (b ! 1),
                              request.body := take (nat (nRead - hdrsize)) (drop 2 b)\<rparr>)))
        else if opc = opERROR then
          (if length b < 2 then Inl SliceBounds
           else
             (case readCString (drop 2 b) of
                Inl err \<Rightarrow> Inr (Inl err)
              | Inr (n, msg) \<Rightarrow>
                  Inr (Inr (req\<lparr>request.number := Uint16 (b ! 0) (b ! 1), errorMessage := msg,
                                request.body := drop n (drop 2 b)\<rparr>))))
        else Inr (Inr req))"

definition newResponse :: "client \<Rightarrow> request \<Rightarrow> response" where
  "newResponse cli req =
     (if request.opcode req = opRRQ \<or> request.opcode req = opACK then
        \<lparr>opcode = opDATA, number = request.number req + 1, body = replicate (blockSize cli) 0\<rparr>
      else if request.opcode req = opWRQ \<or> request.opcode req = opDATA then
        \<lparr>opcode = opACK, number = request.number req, body = []\<rparr>
      else \<lparr>opcode = 0, number = 0, body = []\<rparr>)"

definition newClient :: "string \<Rightarrow> client" where
  "newClient t =
     \<lparr>tid = t, file = None, inited = False, lastPkt = False, blockSize = 0, bytesLeft = 0\<rparr>"

abbreviation (input) defaultBlockSize :: nat where "defaultBlockSize \<equiv> 512"

text \<open>
  \<open>prepareFromRequest\<close>, on the client at address \<open>p\<close> of the store. The result is
  the error returned (\<open>None\<close> for nil) and the machine after the call.
\<close>

definition prepareFromRequest :: "machine \<Rightarrow> nat \<Rightarrow> request \<Rightarrow> goerror option \<times> machine" where
  "prepareFromRequest m p req =
     (case (if request.opcode req = opRRQ then Inr (os_Open m (filename req))
            else if os_Stat m (filename req) \<noteq> Some (PathError ErrNotExist)
            then Inl (TftpError (newTFTPError ecFEX []))
            else Inr (os_Create m (filename req))) of
        Inl fex \<Rightarrow> (Some fex, m)
      | Inr (Inl err, m1) \<Rightarrow>
          (Some (if err = PathError ErrNotExist then TftpError (newTFTPError ecFNF [])
                 else if err = PathError ErrPermission then TftpError (newTFTPError ecACV [])
                 else if err = PathError ENOSPC then TftpError (newTFTPError ecDSK [])
                 else err), m1)
      | Inr (Inr f, m1) \<Rightarrow>
          (case file_Stat m1 f of
             Inl err \<Rightarrow> (Some err, m1)
           | Inr sz \<Rightarrow>
               (None,
                m1\<lparr>clients := (clients m1)(p := (clients m1 p)
                      \<lparr>file := Some f, inited := True, blockSize := defaultBlockSize,
                       bytesLeft := of_nat sz\<rparr>)\<rparr>)))"

definition handleRequest :: "machine \<Rightarrow> nat \<Rightarrow> request \<Rightarrow> goerror option \<times> machine" where
  "handleRequest m p req =
     (let cli = clients m p in
      if request.opcode req < opRRQ \<or> request.opcode req > opERROR then
        (Some (TftpError (newTFTPError ecILL [])), m)
      else if request.opcode req = opACK \<and> inited cli \<and> lastPkt cli then
        (Some EndOfSession, m\<lparr>connections := (connections m)(tid cli := None)\<rparr>)
      else if \<not> inited cli \<and> request.opcode req \<noteq> opRRQ \<and> request.opcode req \<noteq> opWRQ then
        (Some (TftpError (newTFTPError ecUTID [])), m)
      else
        case (if \<not> inited cli then prepareFromRequest m p req else (None, m)) of
          (Some err, m1) \<Rightarrow> (Some err, m1)
        | (None, m1) \<Rightarrow>
            if request.opcode req = opERROR then (None, m1)
            else if request.opcode req = opDATA then
              (case io_Copy m1 (file (clients m1 p)) (request.body req) of
                 (Some err, m2) \<Rightarrow>
                   (Some (if err = PathError ENOSPC then TftpError (newTFTPError ecDSK []) else err), m2)
               | (None, m2) \<Rightarrow> (None, m2))
            else (None, m1))"

text \<open>
  \<open>handleResponse\<close> changes the response through its pointer, so the response comes
  back with the error and the machine. \<open>Read\<close> fills the front of \<open>resp.body\<close> and
  \<open>resp.body[:n]\<close> keeps exactly what was read.
\<close>

definition handleResponse :: "machine \<Rightarrow> nat \<Rightarrow> response \<Rightarrow> goerror option \<times> response \<times> machine" where
  "handleResponse m p resp =
     (if opcode resp = opDATA then
        (case file_Read m (file (clients m p)) (length (body resp)) of
           ((data, err), m1) \<Rightarrow>
             if err \<noteq> None \<and> err \<noteq> Some EOF then (err, resp, m1)
             else
               let m2 = (if bytesLeft (clients m1 p) \<le>s 0
                         then (file_Close m1 (file (clients m1 p)))
                                \<lparr>clients := (clients m1)(p := (clients m1 p)\<lparr>lastPkt := True\<rparr>)\<rparr>
                         else m1)
               in (None, resp\<lparr>body := data\<rparr>,
                   m2\<lparr>clients := (clients m2)(p := (clients m2 p)
                         \<lparr>bytesLeft := bytesLeft (clients m2 p) - of_nat (length data)\<rparr>)\<rparr>))
      else (None, resp, m))"

definition packet :: "response \<Rightarrow> byte list" where
  "packet resp = [0, opcode resp] @ PutUint16 (number resp) @ body resp"

definition sendResponse :: "machine \<Rightarrow> nat \<Rightarrow> response \<Rightarrow> goerror option \<times> machine" where
  "sendResponse m p resp = WriteTo m (packet resp) (tid (clients m p))"

definition sendError :: "machine \<Rightarrow> nat \<Rightarrow> tftpError \<Rightarrow> goerror option \<times> machine" where
  "sendError m p err =
     sendResponse m p \<lparr>opcode = opERROR, number = code err, body = toCString (message err)\<rparr>"

definition handleError :: "machine \<Rightarrow> nat \<Rightarrow> goerror \<Rightarrow> gopanic + machine" where
  "handleError m p err =
     (let tftpErr = (case err of TftpError e \<Rightarrow> e
                     | _ \<Rightarrow> newTFTPError ecNDEF [str ''Unexpected error.'']);
          m1 = m\<lparr>clients := (clients m)(p := (clients m p)\<lparr>inited := True, lastPkt := True\<rparr>)\<rparr>
      in case sendError m1 p tftpErr of
           (Some e, m2) \<Rightarrow> Inl (PanicErr e)
         | (None, m2) \<Rightarrow> Inr m2)"

text \<open>The function literal of \<open>handleConnection\<close>: decode, handle, respond, send.\<close>

definition serve :: "machine \<Rightarrow> nat \<Rightarrow> int \<Rightarrow> byte list \<Rightarrow> gopanic + (goerror option \<times> machine)" where
  "serve m p nRead buf =
     (case newRequest nRead buf of
        Inl pn \<Rightarrow> Inl pn
      | Inr (Inl err) \<Rightarrow> Inr (Some err, m)
      | Inr (Inr req) \<Rightarrow>
          (case handleRequest m p req of
             (Some err, m1) \<Rightarrow> Inr (Some err, m1)
           | (None, m1) \<Rightarrow>
               (case handleResponse m1 p (newResponse (clients m1 p) req) of
                  (Some err, resp, m2) \<Rightarrow> Inr (Some err, m2)
                | (None, resp, m2) \<Rightarrow> Inr (sendResponse m2 p resp))))"

definition handleConnection :: "machine \<Rightarrow> string \<Rightarrow> int \<Rightarrow> byte list \<Rightarrow> gopanic + machine" where
  "handleConnection m addr nRead buf =
     (let (p, m0) =
            (case connections m addr of
               Some q \<Rightarrow> (q, m)
             | None \<Rightarrow>
                 (nclients m,
                  m\<lparr>clients := (clients m)(nclients m := newClient addr),
                    nclients := Suc (nclients m),
                    connections := (connections m)(addr \<mapsto> nclients m)\<rparr>))
      in case serve m0 p nRead buf of
           Inl pn \<Rightarrow> Inl pn
         | Inr (None, m1) \<Rightarrow> Inr m1
         | Inr (Some err, m1) \<Rightarrow> if err \<noteq> EndOfSession then handleError m1 p err else Inr m1)"

text \<open>
  \<open>ListenAndServe\<close> over the datagrams that arrive, in order, each with its sender.
  \<open>ReadFrom\<close> copies a datagram to the front of the one buffer the loop owns, cut to
  the buffer's length, and leaves the rest of the buffer as it was; a read that fails
  is logged and skipped, so only the datagrams that were read are listed. The loop ends
  only by a panic; here it also ends when the datagrams listed are used up, and gives
  the buffer and the machine of that moment.
\<close>

abbreviation (input) bodyMaxSize :: nat where "bodyMaxSize \<equiv> 2048"

definition ReadFrom :: "byte list \<Rightarrow> byte list \<Rightarrow> nat \<times> byte list" where
  "ReadFrom buf d =
     (let n = min (length d) (length buf) in (n, take n d @ drop n buf))"

fun ListenAndServe :: "machine \<Rightarrow> byte list \<Rightarrow> (string \<times> byte list) list \<Rightarrow> gopanic + (byte list \<times> machine)" where
  "ListenAndServe m buf [] = Inr (buf, m)"
| "ListenAndServe m buf ((addr, d) # ds) =
     (case ReadFrom buf d of
        (n, buf') \<Rightarrow>
          (case handleConnection m addr (int n) buf' of
             Inl pn \<Rightarrow> Inl pn
           | Inr m' \<Rightarrow> ListenAndServe m' buf' ds))"

section \<open>Clients and scenarios\<close>

text \<open>
  The datagrams a client sends, by the wire format: the opcode in two bytes, then the
  file name and the mode as C strings, or a block number or an error code in two bytes
  and the payload or the message.
\<close>

definition rrqPacket :: "gostring \<Rightarrow> byte list" where
  "rrqPacket f = [0, opRRQ] @ toCString f @ toCString (str ''octet'')"

definition wrqPacket :: "gostring \<Rightarrow> byte list" where
  "wrqPacket f = [0, opWRQ] @ toCString f @ toCString (str ''octet'')"

definition dataPacket :: "16 word \<Rightarrow> byte list \<Rightarrow> byte list" where
  "dataPacket n d = [0, opDATA] @ PutUint16 n @ d"

definition ackPacket :: "16 word \<Rightarrow> byte list" where
  "ackPacket n = [0, opACK] @ PutUint16 n"

definition errorPacket :: "errorCode \<Rightarrow> gostring \<Rightarrow> byte list" where
  "errorPacket c msg = [0, opERROR] @ PutUint16 c @ toCString msg"

text \<open>
  A client that acknowledges the blocks \<open>1, \<dots>, j\<close> in order, and the datagrams of
  a whole read of \<open>f\<close> by such a client.
\<close>

fun acks :: "string \<Rightarrow> nat \<Rightarrow> (string \<times> byte list) list" where
  "acks a 0 = []"
| "acks a (Suc j) = acks a j @ [(a, ackPacket (of_nat (Suc j)))]"

definition readSession :: "string \<Rightarrow> gostring \<Rightarrow> nat \<Rightarrow> (string \<times> byte list) list" where
  "readSession a f j = (a, rrqPacket f) # acks a j"

text \<open>The \<open>i\<close>-th block of 512 bytes of a file, counted from 0.\<close>

definition block :: "byte list \<Rightarrow> nat \<Rightarrow> byte list" where
  "block c i = take defaultBlockSize (drop (i * defaultBlockSize) c)"

text \<open>
  A server that has just started, on a disk that holds the files listed and has room
  for 4096 more bytes, with a socket that sends every datagram; and the buffer
  \<open>ListenAndServe\<close> makes.
\<close>

definition closedFile :: osfile where
  "closedFile = \<lparr>path = [], offset = 0, writable = False, closed = True\<rparr>"

definition boot :: "(gostring \<times> byte list) list \<Rightarrow> machine" where
  "boot fs =
     \<lparr>connections = Map.empty, clients = (\<lambda>_. newClient []), nclients = 0,
      files = map_of fs, dirs = [], denied = [], free = 4096, fds = (\<lambda>_. closedFile), nfds = 0,
      sendq = [], outbox = []\<rparr>"

text \<open>Such a server once \<open>handleConnection\<close> has put a new client for \<open>a\<close> in its table.\<close>

definition met :: "string \<Rightarrow> machine" where
  "met a = (boot [])\<lparr>clients := (clients (boot []))(0 := newClient a), nclients := 1,
                     connections := [a \<mapsto> 0]\<rparr>"

definition buf0 :: "byte list" where
  "buf0 = replicate bodyMaxSize 0"

text \<open>
  What a test observes of a run: the panic, or the datagrams sent, the pointer the
  table holds for an address, and for every open-file description whether it is closed.
\<close>

definition observe :: "string \<Rightarrow> gopanic + (byte list \<times> machine)
    \<Rightarrow> gopanic + ((string \<times> byte list) list \<times> nat option \<times> bool list)" where
  "observe a r =
     (case r of
        Inl pn \<Rightarrow> Inl pn
      | Inr (buf, m) \<Rightarrow>
          Inr (outbox m, connections m a, map (\<lambda>h. closed (fds m h)) [0..<nfds m]))"

text \<open>
  The state of a read of the file \<open>f\<close>, of content \<open>c\<close>, by the client at \<open>a\<close>,
  after the request and \<open>j\<close> acknowledgements: the table holds the pointer \<open>p\<close>, the
  client has the stream \<open>h\<close> on \<open>f\<close>, and \<open>j + 1\<close> blocks were read and sent. The
  last packet is marked, and the stream closed, once a block has been read with
  nothing left before it.
\<close>

definition reading :: "machine \<Rightarrow> string \<Rightarrow> nat \<Rightarrow> nat \<Rightarrow> gostring \<Rightarrow> byte list \<Rightarrow> nat \<Rightarrow> bool" where
  "reading m a p h f c j =
     (connections m a = Some p
      \<and> clients m p =
          \<lparr>tid = a, file = Some h, inited = True, lastPkt = (length c \<le> j * 512),
           blockSize = 512, bytesLeft = of_nat (length c - min (length c) (Suc j * 512))\<rparr>
      \<and> fds m h =
          \<lparr>path = f, offset = min (length c) (Suc j * 512), writable = False,
           closed = (length c \<le> j * 512)\<rparr>
      \<and> files m f = Some c
      \<and> sendq m = [])"

text \<open>Whether the next write to the socket succeeds.\<close>

definition nextSendOk :: "machine \<Rightarrow> bool" where
  "nextSendOk m = (case sendq m of [] \<Rightarrow> True | ok # rest \<Rightarrow> ok)"

text \<open>The \<open>*tftpError\<close> that \<open>handleError\<close> sends for an error.\<close>

definition asTftpError :: "goerror \<Rightarrow> tftpError" where
  "asTftpError err =
     (case err of TftpError e \<Rightarrow> e | _ \<Rightarrow> newTFTPError ecNDEF [str ''Unexpected error.''])"

text \<open>
  The table as \<open>handleConnection\<close> keeps it: every entry points into the part of the
  store in use, at the client made for that very address.
\<close>

definition tableOk :: "machine \<Rightarrow> bool" where
  "tableOk m = (\<forall>b q. connections m b = Some q \<longrightarrow> q < nclients m \<and> tid (clients m q) = b)"

text \<open>
  A call that leaves the table alone, changes no client but the one at \<open>p\<close>, and
  takes neither its address nor a mark it carries away from that one.
\<close>

definition keeps :: "nat \<Rightarrow> machine \<Rightarrow> machine \<Rightarrow> bool" where
  "keeps p m m' =
     (nclients m' = nclients m \<and> connections m' = connections m
      \<and> (\<forall>q. q \<noteq> p \<longrightarrow> clients m' q = clients m q)
      \<and> tid (clients m' p) = tid (clients m p)
      \<and> (inited (clients m p) \<longrightarrow> inited (clients m' p))
      \<and> (lastPkt (clients m p) \<longrightarrow> lastPkt (clients m' p)))"

text \<open>The client of \<open>a\<close> is in the table, at \<open>p\<close>, marked as \<open>handleError\<close> marks it.\<close>

definition marked :: "machine \<Rightarrow> string \<Rightarrow> nat \<Rightarrow> bool" where
  "marked m a p =
     (tableOk m \<and> connections m a = Some p \<and> inited (clients m p) \<and> lastPkt (clients m p))"

text \<open>
  None of the datagrams listed comes from \<open>a\<close> with the opcode byte of an ACK in the
  buffer, as \<open>ListenAndServe\<close> fills it from the buffer \<open>buf\<close> on.
\<close>

fun noAckFrom :: "string \<Rightarrow> byte list \<Rightarrow> (string \<times> byte list) list \<Rightarrow> bool" where
  "noAckFrom a buf [] = True"
| "noAckFrom a buf ((b, d) # ds) =
     (case ReadFrom buf d of
        (n, buf') \<Rightarrow> (b \<noteq> a \<or> buf' ! 1 \<noteq> opACK) \<and> noAckFrom a buf' ds)"

section \<open>The wire codec\<close>

lemma scan_stops:
  "i \<le> length s \<Longrightarrow> 0 \<notin> set s \<Longrightarrow> scan (s @ 0 # rest) i = length s"
proof (induction "length s - i" arbitrary: i)
  case 0
  then have "i = length s" by simp
  then show ?case by (subst scan.simps) simp
next
  case (Suc k)
  then have lt: "i < length s" by simp
  with Suc.prems have "(s @ 0 # rest) ! i \<noteq> 0"
    by (metis nth_append nth_mem)
  moreover from Suc lt have "scan (s @ 0 # rest) (i + 1) = length s" by simp
  ultimately show ?case using lt by (subst scan.simps) simp
qed

lemma readCString_terminated:
  "0 \<notin> set s \<Longrightarrow> readCString (s @ 0 # rest) = Inr (length s + 1, s)"
  by (simp add: readCString_def scan_stops)

text \<open>
  C9. For every string \<open>s\<close> without a NUL byte, the empty one too, decoding the
  encoding of \<open>s\<close> succeeds and gives the pair of \<open>len(s) + 1\<close> and \<open>s\<close>.
\<close>

theorem readCString_toCString:
  "0 \<notin> set s \<Longrightarrow> readCString (toCString s) = Inr (length s + 1, s)"
  by (simp add: toCString_def readCString_terminated)

theorem readCString_toCString_witness:
  "0 \<notin> set (str ''hello world!'') \<and> 0 \<notin> set (str '''')
   \<and> readCString (toCString (str ''hello world!'')) = Inr (13, str ''hello world!'')
   \<and> readCString (toCString (str '''')) = Inr (1, str '''')"
proof -
  have a: "0 \<notin> set (str ''hello world!'')" by (simp add: str_def)
  have b: "0 \<notin> set (str '''')" by (simp add: str_def)
  show ?thesis
    using a b readCString_toCString [OF a] readCString_toCString [OF b]
    by (simp add: str_def)
qed

section \<open>Decoding the datagrams of a client\<close>

lemma Uint16_PutUint16: "Uint16 (ucast (drop_bit 8 v)) (ucast v) = v"
  unfolding Uint16_def
  apply (rule bit_word_eqI)
  apply (auto simp add: bit_simps)
  done

lemma octet_no_nul: "0 \<notin> set (str ''octet'')"
  by (simp add: str_def)

lemma newRequest_ack:
  "newRequest 4 (ackPacket n @ junk) =
     Inr (Inr \<lparr>numRead = 4, request.body = [], request.opcode = opACK, request.number = n,
               filename = [], mode = [], errorMessage = []\<rparr>)"
  by (simp add: newRequest_def ackPacket_def PutUint16_def Uint16_PutUint16)

lemma newRequest_data:
  "newRequest (4 + int (length d)) (dataPacket n d @ junk) =
     Inr (Inr \<lparr>numRead = 4 + int (length d), request.body = d, request.opcode = opDATA,
               request.number = n, filename = [], mode = [], errorMessage = []\<rparr>)"
  by (simp add: newRequest_def dataPacket_def PutUint16_def Uint16_PutUint16)

lemma newRequest_rrq:
  "0 \<notin> set f \<Longrightarrow> newRequest n (rrqPacket f @ junk) =
     Inr (Inr \<lparr>numRead = n, request.body = junk, request.opcode = opRRQ, request.number = 0,
               filename = f, mode = str ''octet'', errorMessage = []\<rparr>)"
  by (simp add: newRequest_def rrqPacket_def toCString_def readCString_terminated octet_no_nul)

lemma newRequest_wrq:
  "0 \<notin> set f \<Longrightarrow> newRequest n (wrqPacket f @ junk) =
     Inr (Inr \<lparr>numRead = n, request.body = junk, request.opcode = opWRQ, request.number = 0,
               filename = f, mode = str ''octet'', errorMessage = []\<rparr>)"
  by (simp add: newRequest_def wrqPacket_def toCString_def readCString_terminated octet_no_nul)

lemma newRequest_error:
  "0 \<notin> set msg \<Longrightarrow> newRequest n (errorPacket c msg @ junk) =
     Inr (Inr \<lparr>numRead = n, request.body = junk, request.opcode = opERROR, request.number = c,
               filename = [], mode = [], errorMessage = msg\<rparr>)"
  by (simp add: newRequest_def errorPacket_def PutUint16_def toCString_def
      readCString_terminated Uint16_PutUint16)

section \<open>Acknowledgements\<close>

lemma newRequest_number:
  assumes "newRequest nRead buf = Inr (Inr req)"
  shows "request.opcode req = opWRQ \<Longrightarrow> request.number req = 0"
    and "request.opcode req = opDATA \<Longrightarrow> request.number req = Uint16 (buf ! 2) (buf ! 3)"
  using assms
  by (auto simp add: newRequest_def Let_def split: if_splits sum.splits prod.splits)

text \<open>
  C10. The response built for a WRQ or a DATA request is an ACK whose block number
  is the number field of the decoded request: 0 for a WRQ, for which no number is
  parsed, and the big-endian value of bytes 2 and 3 for DATA. It is sent as the four
  bytes of that ACK whenever handling the request raises no error.
\<close>

theorem ack_carries_request_number:
  assumes "newRequest nRead buf = Inr (Inr req)"
      and "request.opcode req = opWRQ \<or> request.opcode req = opDATA"
  shows "newResponse cli req = \<lparr>opcode = opACK, number = request.number req, body = []\<rparr>
     \<and> request.number req = (if request.opcode req = opWRQ then 0 else Uint16 (buf ! 2) (buf ! 3))
     \<and> packet (newResponse cli req) = ackPacket (request.number req)
     \<and> (case handleRequest m p req of
          (Some err, m1) \<Rightarrow> serve m p nRead buf = Inr (Some err, m1)
        | (None, m1) \<Rightarrow>
            serve m p nRead buf =
              Inr (WriteTo m1 (ackPacket (request.number req)) (tid (clients m1 p))))"
proof -
  have r: "newResponse cli' req = \<lparr>opcode = opACK, number = request.number req, body = []\<rparr>"
    for cli'
    using assms(2) by (auto simp add: newResponse_def)
  have n: "request.number req =
      (if request.opcode req = opWRQ then 0 else Uint16 (buf ! 2) (buf ! 3))"
    using assms(2) newRequest_number [OF assms(1)] by auto
  have p: "packet (newResponse cli req) = ackPacket (request.number req)"
    by (simp add: r packet_def ackPacket_def)
  have s: "(case handleRequest m p req of
          (Some err, m1) \<Rightarrow> serve m p nRead buf = Inr (Some err, m1)
        | (None, m1) \<Rightarrow>
            serve m p nRead buf =
              Inr (WriteTo m1 (ackPacket (request.number req)) (tid (clients m1 p))))"
    by (simp add: serve_def assms(1) r handleResponse_def sendResponse_def packet_def
        ackPacket_def split: prod.split option.split)
  from r n p s show ?thesis by blast
qed

theorem ack_carries_request_number_witness:
  "newRequest 9 (wrqPacket (str ''b'')) =
     Inr (Inr \<lparr>numRead = 9, request.body = [], request.opcode = opWRQ, request.number = 0,
               filename = str ''b'', mode = str ''octet'', errorMessage = []\<rparr>)
   \<and> newResponse (newClient ''c'')
        \<lparr>numRead = 9, request.body = [], request.opcode = opWRQ, request.number = 0,
         filename = str ''b'', mode = str ''octet'', errorMessage = []\<rparr>
       = \<lparr>opcode = opACK, number = 0, body = []\<rparr>
   \<and> newRequest 6 (dataPacket 7 [8, 9]) =
     Inr (Inr \<lparr>numRead = 6, request.body = [8, 9], request.opcode = opDATA, request.number = 7,
               filename = [], mode = [], errorMessage = []\<rparr>)
   \<and> newResponse (newClient ''c'')
        \<lparr>numRead = 6, request.body = [8, 9], request.opcode = opDATA, request.number = 7,
         filename = [], mode = [], errorMessage = []\<rparr>
       = \<lparr>opcode = opACK, number = 7, body = []\<rparr>"
proof -
  have w: "newRequest 9 (wrqPacket (str ''b'')) =
     Inr (Inr \<lparr>numRead = 9, request.body = [], request.opcode = opWRQ, request.number = 0,
               filename = str ''b'', mode = str ''octet'', errorMessage = []\<rparr>)"
    using newRequest_wrq [of "str ''b''" 9 "[]"] by (simp add: str_def)
  have d: "newRequest 6 (dataPacket 7 [8, 9]) =
     Inr (Inr \<lparr>numRead = 6, request.body = [8, 9], request.opcode = opDATA, request.number = 7,
               filename = [], mode = [], errorMessage = []\<rparr>)"
    using newRequest_data [of "[8, 9]" 7 "[]"] by simp
  show ?thesis
    using w d
      ack_carries_request_number [OF w, where cli = "newClient ''c''" and m = "boot []" and p = 0]
      ack_carries_request_number [OF d, where cli = "newClient ''c''" and m = "boot []" and p = 0]
    by simp
qed

section \<open>Opcodes\<close>

text \<open>
  C3. The datagram \<open>01 04 00 01\<close> has the opcode field 260, outside 1..5. The decoder
  reads the second byte only and takes it for an ACK of block 1; from an address
  without a session the answer is the error 5, unknown transfer ID, and not the
  error 4, illegal operation.
\<close>

theorem opcode_taken_from_one_byte:
  "Uint16 1 4 = 260
   \<and> newRequest 4 (1 # 4 # 0 # 1 # replicate 2044 0) =
     Inr (Inr \<lparr>numRead = 4, request.body = [], request.opcode = opACK, request.number = 1,
               filename = [], mode = [], errorMessage = []\<rparr>)
   \<and> observe ''c'' (ListenAndServe (boot []) buf0 [(''c'', [1, 4, 0, 1])]) =
       Inr ([(''c'', errorPacket ecUTID (str ''Unknown transfer ID.''))], Some 0, [])"
  apply (intro conjI)
    apply (simp add: Uint16_def)
   apply (simp add: newRequest_def Uint16_def)
  apply (simp add: observe_def boot_def buf0_def ReadFrom_def handleConnection_def serve_def
      newRequest_def Uint16_def handleRequest_def newClient_def handleError_def sendError_def
      sendResponse_def WriteTo_def packet_def newTFTPError_def tftpErrors_def errorPacket_def)
  done

section \<open>Reading a file\<close>

lemma sint_of_nat_small: "n < 2 ^ 63 \<Longrightarrow> sint (of_nat n :: 64 word) = int n"
  apply (simp add: signed_of_nat)
  apply (rule signed_take_bit_int_eq_self)
   apply simp_all
  done

lemma int64_le_zero: "n < 2 ^ 63 \<Longrightarrow> ((of_nat n :: 64 word) \<le>s 0) = (n = 0)"
  by (simp add: word_sle_eq sint_of_nat_small)

lemma drop_min_length: "drop (min (length c) k) c = drop k c"
  by (cases "k \<le> length c") (simp_all add: min_def)

lemma rrq_step:
  assumes "connections m a = None" "files m f = Some c" "f \<notin> set (denied m)" "0 \<notin> set f"
    "sendq m = []" "length c < 2 ^ 63"
  shows "\<exists>m'. handleConnection m a n (rrqPacket f @ junk) = Inr m'
     \<and> reading m' a (nclients m) (nfds m) f c 0
     \<and> outbox m' = outbox m @ [(a, dataPacket 1 (block c 0))]
     \<and> nfds m' = Suc (nfds m)"
  using assms
  by (simp add: handleConnection_def serve_def newRequest_rrq handleRequest_def newClient_def
    prepareFromRequest_def os_Open_def pathExists_def file_Stat_def content_def newResponse_def
    handleResponse_def
    file_Read_def file_Close_def sendResponse_def WriteTo_def packet_def int64_le_zero reading_def
    dataPacket_def block_def Let_def)

lemma left_after_block:
  assumes "\<not> n \<le> k"
  shows "(of_nat (n - k) :: 64 word) - of_nat (min (n - k) 512) = of_nat (n - min n (512 + k))"
proof -
  have "(of_nat (n - k) :: 64 word) - of_nat (min (n - k) 512) = of_nat (n - k - min (n - k) 512)"
    by (rule of_nat_diff [symmetric]) simp
  also from assms have "n - k - min (n - k) 512 = n - min n (512 + k)"
    by arith
  finally show ?thesis .
qed

lemma ack_step:
  assumes "reading m a p h f c j" "j * 512 < length c" "length c < 2 ^ 63"
  shows "\<exists>m'. handleConnection m a 4 (ackPacket n @ junk) = Inr m'
     \<and> reading m' a p h f c (Suc j)
     \<and> outbox m' = outbox m @ [(a, dataPacket (n + 1) (block c (Suc j)))]
     \<and> nfds m' = nfds m"
proof -
  have lt: "length c - min (length c) (Suc j * 512) < 2 ^ 63"
    using assms(3) by simp
  have w: "\<not> length c \<le> 512 + j * 512 \<Longrightarrow>
      (of_nat (length c - (512 + j * 512)) :: 64 word)
        - of_nat (min (length c - (512 + j * 512)) 512)
      = of_nat (length c - min (length c) (1024 + j * 512))"
    using left_after_block [of "length c" "512 + j * 512"] by (simp add: add.assoc)
  have o: "\<not> length c \<le> 512 + j * 512 \<Longrightarrow>
      512 + j * 512 + min (length c - (512 + j * 512)) 512 = min (length c) (1024 + j * 512)"
    by arith
  show ?thesis
    using assms(1,2) lt
    by (simp add: handleConnection_def serve_def newRequest_ack handleRequest_def
      newResponse_def handleResponse_def
      file_Read_def file_Close_def content_def sendResponse_def WriteTo_def packet_def
      int64_le_zero reading_def dataPacket_def block_def Let_def drop_min_length w o
      del: of_nat_diff of_nat_add of_nat_mult)
qed

lemma ack_final:
  assumes "reading m a p h f c j" "length c \<le> j * 512"
  shows "handleConnection m a 4 (ackPacket n @ junk) =
     Inr (m\<lparr>connections := (connections m)(a := None)\<rparr>)"
  using assms
  by (simp add: handleConnection_def serve_def newRequest_ack handleRequest_def reading_def)

lemma ReadFrom_fits:
  "length d \<le> length buf \<Longrightarrow> ReadFrom buf d = (length d, d @ drop (length d) buf)"
  by (simp add: ReadFrom_def min_def Let_def)

lemma ListenAndServe_append:
  "ListenAndServe m buf (ds @ es) =
     (case ListenAndServe m buf ds of
        Inl pn \<Rightarrow> Inl pn
      | Inr (buf', m') \<Rightarrow> ListenAndServe m' buf' es)"
  by (induction m buf ds rule: ListenAndServe.induct) (auto split: sum.splits prod.splits)

lemma blocks_sent_Suc:
  "map (\<lambda>i. (a, dataPacket (of_nat (Suc i)) (block c i))) [0..<Suc (Suc j)] =
   map (\<lambda>i. (a, dataPacket (of_nat (Suc i)) (block c i))) [0..<Suc j]
     @ [(a, dataPacket (of_nat (Suc j) + 1) (block c (Suc j)))]"
  by simp

lemma read_progress:
  assumes "connections m a = None" "files m f = Some c" "f \<notin> set (denied m)" "0 \<notin> set f"
    "sendq m = []" "length c < 2 ^ 63" "length buf = 2048" "length (rrqPacket f) \<le> 2048"
  shows "j \<le> (length c + 511) div 512 \<Longrightarrow>
     \<exists>buf' m'. ListenAndServe m buf (readSession a f j) = Inr (buf', m')
       \<and> length buf' = 2048
       \<and> reading m' a (nclients m) (nfds m) f c j
       \<and> outbox m' = outbox m @ map (\<lambda>i. (a, dataPacket (of_nat (Suc i)) (block c i))) [0..<Suc j]
       \<and> nfds m' = Suc (nfds m)"
proof (induction j)
  case 0
  obtain m' where s: "handleConnection m a (int (length (rrqPacket f)))
        (rrqPacket f @ drop (length (rrqPacket f)) buf) = Inr m'"
      "reading m' a (nclients m) (nfds m) f c 0"
      "outbox m' = outbox m @ [(a, dataPacket 1 (block c 0))]"
      "nfds m' = Suc (nfds m)"
    using rrq_step [OF assms(1-6)] by blast
  with assms(7,8) show ?case
    by (simp add: readSession_def ReadFrom_fits)
next
  case (Suc j)
  then have lt: "j * 512 < length c" by arith
  from Suc obtain buf1 m1 where
    run: "ListenAndServe m buf (readSession a f j) = Inr (buf1, m1)"
    and len: "length buf1 = 2048"
    and inv: "reading m1 a (nclients m) (nfds m) f c j"
    and out: "outbox m1 =
        outbox m @ map (\<lambda>i. (a, dataPacket (of_nat (Suc i)) (block c i))) [0..<Suc j]"
    and nf: "nfds m1 = Suc (nfds m)"
    by auto
  obtain m2 where s: "handleConnection m1 a 4 (ackPacket (of_nat (Suc j)) @ drop 4 buf1) = Inr m2"
      "reading m2 a (nclients m) (nfds m) f c (Suc j)"
      "outbox m2 = outbox m1 @ [(a, dataPacket (of_nat (Suc j) + 1) (block c (Suc j)))]"
      "nfds m2 = nfds m1"
    using ack_step [OF inv lt assms(6)] by blast
  have al: "length (ackPacket (of_nat (Suc j))) = 4"
    by (simp add: ackPacket_def PutUint16_def)
  have rf: "ReadFrom buf1 (ackPacket (of_nat (Suc j))) = (4, ackPacket (of_nat (Suc j)) @ drop 4 buf1)"
    using ReadFrom_fits [of "ackPacket (of_nat (Suc j))" buf1] al len by simp
  have "ListenAndServe m buf (readSession a f (Suc j)) =
      ListenAndServe m1 buf1 [(a, ackPacket (of_nat (Suc j)))]"
    using run ListenAndServe_append [of m buf "readSession a f j" "[(a, ackPacket (of_nat (Suc j)))]"]
    by (simp add: readSession_def)
  also have "\<dots> = Inr (ackPacket (of_nat (Suc j)) @ drop 4 buf1, m2)"
    using s(1) rf by simp
  finally show ?case
    using s(2-4) out nf len al by (simp only: blocks_sent_Suc) simp
qed

lemma blocks_concat: "concat (map (block c) [0..<n]) = take (n * 512) c"
proof (induction n)
  case 0
  show ?case by simp
next
  case (Suc n)
  have "take (n * 512) c @ take 512 (drop (n * 512) c) = take (n * 512 + 512) c"
    by (simp add: take_add)
  with Suc show ?case by (simp add: block_def add.commute)
qed

lemma read_last_ack:
  assumes "connections m a = None" "files m f = Some c" "f \<notin> set (denied m)" "0 \<notin> set f"
    "sendq m = []" "length c < 2 ^ 63" "length buf = 2048" "length (rrqPacket f) \<le> 2048"
    and "k = (length c + 511) div 512"
  shows "\<exists>buf' m'. ListenAndServe m buf (readSession a f k @ [(a, ackPacket n)]) = Inr (buf', m')
       \<and> outbox m' = outbox m @ map (\<lambda>i. (a, dataPacket (of_nat (Suc i)) (block c i))) [0..<Suc k]
       \<and> connections m' a = None
       \<and> closed (fds m' (nfds m))
       \<and> nfds m' = Suc (nfds m)"
proof -
  have "k \<le> (length c + 511) div 512" using assms(9) by simp
  from read_progress [OF assms(1-8) this] obtain buf1 m1 where
    run: "ListenAndServe m buf (readSession a f k) = Inr (buf1, m1)"
    and len: "length buf1 = 2048"
    and inv: "reading m1 a (nclients m) (nfds m) f c k"
    and out: "outbox m1 =
        outbox m @ map (\<lambda>i. (a, dataPacket (of_nat (Suc i)) (block c i))) [0..<Suc k]"
    and nf: "nfds m1 = Suc (nfds m)"
    by blast
  have fin: "length c \<le> k * 512" using assms(9) by arith
  have al: "length (ackPacket n) = 4"
    by (simp add: ackPacket_def PutUint16_def)
  have rf: "ReadFrom buf1 (ackPacket n) = (4, ackPacket n @ drop 4 buf1)"
    using ReadFrom_fits [of "ackPacket n" buf1] al len by simp
  have "ListenAndServe m buf (readSession a f k @ [(a, ackPacket n)]) =
      ListenAndServe m1 buf1 [(a, ackPacket n)]"
    using run by (simp add: ListenAndServe_append)
  also have "\<dots> = Inr (ackPacket n @ drop 4 buf1, m1\<lparr>connections := (connections m1)(a := None)\<rparr>)"
    using ack_final [OF inv fin] rf by simp
  finally show ?thesis
    using out nf inv fin by (simp add: reading_def)
qed

text \<open>
  C1, as the code has it. A read of a file of \<open>N\<close> bytes, below \<open>2^63\<close>, over a
  socket that sends every datagram, by a client that acknowledges every block in order,
  with \<open>k\<close> the number of blocks of 512 bytes that cover the file: after the request
  and \<open>j \<le> k + 1\<close> acknowledgements the server has sent the first \<open>min j k + 1\<close>
  blocks, the \<open>i\<close>-th carrying the bytes of the file from \<open>512 (i - 1)\<close> on, at
  most 512 of them, under the block number \<open>i\<close> in 16 bits, that is \<open>i mod 65536\<close>:
  the numbers run 1, 2, \<dots> and come back to 0 after 65535. So a whole read has
  \<open>k + 1\<close> DATA blocks: the first \<open>k\<close> make up the file and the last is empty. The
  stream is closed from the moment the empty block is read, and the table entry goes
  with the acknowledgement that follows it.
\<close>

theorem read_session_trace:
  assumes "connections m a = None" "files m f = Some c" "f \<notin> set (denied m)" "0 \<notin> set f"
    "sendq m = []" "length c < 2 ^ 63" "length buf = 2048" "length (rrqPacket f) \<le> 2048"
    and "k = (length c + 511) div 512" and "j \<le> Suc k"
  shows "(\<exists>buf' m'. ListenAndServe m buf (readSession a f j) = Inr (buf', m')
       \<and> outbox m' =
           outbox m @ map (\<lambda>i. (a, dataPacket (of_nat (Suc i)) (block c i))) [0..<Suc (min j k)]
       \<and> connections m' a = (if j \<le> k then Some (nclients m) else None)
       \<and> closed (fds m' (nfds m)) = (k \<le> j)
       \<and> concat (map (block c) [0..<k]) = c
       \<and> block c k = [])
     \<and> (\<forall>i. unat (of_nat (Suc i) :: 16 word) = Suc i mod 65536)"
proof -
  have num: "\<forall>i. unat (of_nat (Suc i) :: 16 word) = Suc i mod 65536"
    by (simp only: unat_of_nat) simp
  have whole: "concat (map (block c) [0..<k]) = c"
    using assms(9) by (simp add: blocks_concat)
  have empty: "block c k = []"
    using assms(9) by (simp add: block_def)
  show ?thesis
  proof (cases "j \<le> k")
    case True
    then have "j \<le> (length c + 511) div 512" using assms(9) by simp
    from read_progress [OF assms(1-8) this] obtain buf1 m1 where
      run: "ListenAndServe m buf (readSession a f j) = Inr (buf1, m1)"
      and inv: "reading m1 a (nclients m) (nfds m) f c j"
      and out: "outbox m1 =
          outbox m @ map (\<lambda>i. (a, dataPacket (of_nat (Suc i)) (block c i))) [0..<Suc j]"
      by blast
    have "(length c \<le> j * 512) = (k \<le> j)" using assms(9) by arith
    with True run inv out whole empty num show ?thesis
      by (simp add: reading_def min_def)
  next
    case False
    with assms(10) have j: "j = Suc k" by simp
    have rs: "readSession a f (Suc k) = readSession a f k @ [(a, ackPacket (of_nat (Suc k)))]"
      by (simp add: readSession_def)
    from read_last_ack [OF assms(1-9), of "of_nat (Suc k)"] obtain buf1 m1 where
      "ListenAndServe m buf (readSession a f (Suc k)) = Inr (buf1, m1)"
      "outbox m1 =
          outbox m @ map (\<lambda>i. (a, dataPacket (of_nat (Suc i)) (block c i))) [0..<Suc k]"
      "connections m1 a = None" "closed (fds m1 (nfds m))"
      unfolding rs by blast
    with whole empty j num show ?thesis
      by (simp add: min_def)
  qed
qed

lemma upt_0_3: "[0..<3] = [0, 1, Suc 1]"
  by (simp add: upt_rec)

lemma foo_blocks:
  "map (\<lambda>i. (''c'', dataPacket (of_nat (Suc i)) (block (replicate 1000 65) i))) [0..<3]
     = [(''c'', dataPacket 1 (replicate 512 65)), (''c'', dataPacket 2 (replicate 488 65)),
        (''c'', dataPacket 3 [])]"
  by (simp add: block_def upt_0_3)

lemma foo_boot:
  "connections (boot [(str ''foo.txt'', replicate 1000 65)]) ''c'' = None"
  "files (boot [(str ''foo.txt'', replicate 1000 65)]) (str ''foo.txt'') = Some (replicate 1000 65)"
  "str ''foo.txt'' \<notin> set (denied (boot [(str ''foo.txt'', replicate 1000 65)]))"
  "0 \<notin> set (str ''foo.txt'')"
  "sendq (boot [(str ''foo.txt'', replicate 1000 65)]) = []"
  "length (replicate 1000 (65 :: byte)) < 2 ^ 63"
  "length buf0 = 2048"
  "length (rrqPacket (str ''foo.txt'')) \<le> 2048"
  by (simp_all add: boot_def buf0_def rrqPacket_def toCString_def str_def)

theorem read_session_trace_witness:
  "connections (boot [(str ''foo.txt'', replicate 1000 65)]) ''c'' = None
   \<and> files (boot [(str ''foo.txt'', replicate 1000 65)]) (str ''foo.txt'') = Some (replicate 1000 65)
   \<and> (2 :: nat) = (length (replicate 1000 (65 :: byte)) + 511) div 512
   \<and> (\<exists>buf' m'.
        ListenAndServe (boot [(str ''foo.txt'', replicate 1000 65)]) buf0
          (readSession ''c'' (str ''foo.txt'') 3) = Inr (buf', m')
        \<and> outbox m' =
            [(''c'', dataPacket 1 (replicate 512 65)), (''c'', dataPacket 2 (replicate 488 65)),
             (''c'', dataPacket 3 [])]
        \<and> connections m' ''c'' = None
        \<and> closed (fds m' 0))"
proof -
  let ?m = "boot [(str ''foo.txt'', replicate 1000 65)]"
  have h9: "(2 :: nat) = (length (replicate 1000 (65 :: byte)) + 511) div 512" by simp
  have h10: "(3 :: nat) \<le> Suc 2" by simp
  have n: "nclients ?m = 0" "nfds ?m = 0" "outbox ?m = []" by (simp_all add: boot_def)
  have e: "Suc (min 3 2) = 3" by simp
  from read_session_trace [OF foo_boot h9 h10] obtain buf' m' where
    "ListenAndServe ?m buf0 (readSession ''c'' (str ''foo.txt'') 3) = Inr (buf', m')"
    "outbox m' = [(''c'', dataPacket 1 (replicate 512 65)), (''c'', dataPacket 2 (replicate 488 65)),
             (''c'', dataPacket 3 [])]"
    "connections m' ''c'' = None" "closed (fds m' 0)"
    unfolding n e foo_blocks by auto
  with foo_boot(1,2) h9 show ?thesis by blast
qed

theorem read_session_counterexample:
  "observe ''c'' (ListenAndServe (boot [(str ''foo.txt'', replicate 1000 65)]) buf0
      [(''c'', rrqPacket (str ''foo.txt'')), (''c'', ackPacket 1), (''c'', ackPacket 2)]) =
     Inr ([(''c'', dataPacket 1 (replicate 512 65)), (''c'', dataPacket 2 (replicate 488 65)),
           (''c'', dataPacket 3 [])], Some 0, [True])
   \<and> observe ''c'' (ListenAndServe (boot [(str ''foo.txt'', replicate 1000 65)]) buf0
      [(''c'', rrqPacket (str ''foo.txt'')), (''c'', ackPacket 1), (''c'', ackPacket 2),
       (''c'', ackPacket 9)]) =
     Inr ([(''c'', dataPacket 1 (replicate 512 65)), (''c'', dataPacket 2 (replicate 488 65)),
           (''c'', dataPacket 3 [])], None, [True])"
proof -
  let ?m = "boot [(str ''foo.txt'', replicate 1000 65)]"
  have h9: "(2 :: nat) = (length (replicate 1000 (65 :: byte)) + 511) div 512" by simp
  have h10: "(2 :: nat) \<le> (length (replicate 1000 (65 :: byte)) + 511) div 512" by simp
  have n: "nclients ?m = 0" "nfds ?m = 0" "outbox ?m = []" by (simp_all add: boot_def)
  have e: "Suc 2 = 3" by simp
  have rs: "readSession ''c'' (str ''foo.txt'') 2 =
      [(''c'', rrqPacket (str ''foo.txt'')), (''c'', ackPacket 1), (''c'', ackPacket 2)]"
    by (simp add: readSession_def numeral_2_eq_2)
  have rs9: "readSession ''c'' (str ''foo.txt'') 2 @ [(''c'', ackPacket 9)] =
      [(''c'', rrqPacket (str ''foo.txt'')), (''c'', ackPacket 1), (''c'', ackPacket 2),
       (''c'', ackPacket 9)]"
    by (simp add: rs)
  from read_progress [OF foo_boot h10] obtain buf1 m1 where
    "ListenAndServe ?m buf0 [(''c'', rrqPacket (str ''foo.txt'')), (''c'', ackPacket 1),
        (''c'', ackPacket 2)] = Inr (buf1, m1)"
    "reading m1 ''c'' 0 0 (str ''foo.txt'') (replicate 1000 65) 2"
    "outbox m1 = [(''c'', dataPacket 1 (replicate 512 65)), (''c'', dataPacket 2 (replicate 488 65)),
             (''c'', dataPacket 3 [])]"
    "nfds m1 = Suc 0"
    unfolding n e foo_blocks rs by auto
  then have first: "observe ''c'' (ListenAndServe ?m buf0
      [(''c'', rrqPacket (str ''foo.txt'')), (''c'', ackPacket 1), (''c'', ackPacket 2)]) =
     Inr ([(''c'', dataPacket 1 (replicate 512 65)), (''c'', dataPacket 2 (replicate 488 65)),
           (''c'', dataPacket 3 [])], Some 0, [True])"
    by (simp add: observe_def reading_def)
  from read_last_ack [OF foo_boot h9, of 9] obtain buf2 m2 where
    "ListenAndServe ?m buf0 [(''c'', rrqPacket (str ''foo.txt'')), (''c'', ackPacket 1),
        (''c'', ackPacket 2), (''c'', ackPacket 9)] = Inr (buf2, m2)"
    "outbox m2 = [(''c'', dataPacket 1 (replicate 512 65)), (''c'', dataPacket 2 (replicate 488 65)),
             (''c'', dataPacket 3 [])]"
    "connections m2 ''c'' = None" "closed (fds m2 0)" "nfds m2 = Suc 0"
    unfolding n e foo_blocks rs9 by auto
  then have second: "observe ''c'' (ListenAndServe ?m buf0
      [(''c'', rrqPacket (str ''foo.txt'')), (''c'', ackPacket 1), (''c'', ackPacket 2),
       (''c'', ackPacket 9)]) =
     Inr ([(''c'', dataPacket 1 (replicate 512 65)), (''c'', dataPacket 2 (replicate 488 65)),
           (''c'', dataPacket 3 [])], None, [True])"
    by (simp add: observe_def)
  from first second show ?thesis by (rule conjI)
qed

section \<open>Running the server on a few datagrams\<close>

lemma packet_lengths [simp]:
  "length (rrqPacket f) = length f + 9"
  "length (wrqPacket f) = length f + 9"
  "length (ackPacket n) = 4"
  "length (dataPacket n d) = length d + 4"
  "length (errorPacket c msg) = length msg + 5"
  "length (str s) = length s"
  by (simp_all add: rrqPacket_def wrqPacket_def ackPacket_def dataPacket_def errorPacket_def
      toCString_def PutUint16_def str_def)

lemma newRequest_data_len:
  "n = 4 + int (length d) \<Longrightarrow> newRequest n (dataPacket k d @ junk) =
     Inr (Inr \<lparr>numRead = n, request.body = d, request.opcode = opDATA,
               request.number = k, filename = [], mode = [], errorMessage = []\<rparr>)"
  using newRequest_data [of d k junk] by simp

lemma newRequest_illegal:
  "opc < opRRQ \<or> opc > opERROR \<Longrightarrow> newRequest n (b0 # opc # junk) =
     Inr (Inr \<lparr>numRead = n, request.body = junk, request.opcode = opc, request.number = 0,
               filename = [], mode = [], errorMessage = []\<rparr>)"
  by (auto simp add: newRequest_def Let_def)

lemma newRequest_short:
  "n < 4 \<Longrightarrow> opc = opDATA \<or> opc = opACK \<Longrightarrow> newRequest n (b0 # opc # junk) = Inl SliceBounds"
  by (auto simp add: newRequest_def Let_def)

lemma str_no_nul:
  "0 \<notin> set (str ''foo.txt'')" "0 \<notin> set (str ''new.txt'')" "0 \<notin> set (str ''stop'')"
  by (simp_all add: str_def)

lemmas run_simps =
  ReadFrom_fits buf0_def handleConnection_def serve_def handleRequest_def newClient_def
  prepareFromRequest_def os_Stat_def os_Open_def os_Create_def pathExists_def file_Stat_def
  content_def
  newResponse_def handleResponse_def file_Read_def file_Close_def io_Copy_def
  handleError_def sendError_def sendResponse_def WriteTo_def packet_def newTFTPError_def
  tftpErrors_def newRequest_rrq newRequest_wrq newRequest_ack newRequest_data_len
  newRequest_error newRequest_illegal newRequest_short str_no_nul observe_def boot_def
  Let_def word_sle_eq

text \<open>
  C6. A client writes the new file \<open>new.txt\<close> and sends its only block, of two
  bytes. The server appends the block and acknowledges it, and that is all: the table
  still holds the session and the stream is still open.
\<close>

theorem short_data_leaves_session:
  "observe ''c'' (ListenAndServe (boot []) buf0
      [(''c'', wrqPacket (str ''new.txt'')), (''c'', dataPacket 1 [104, 105])]) =
     Inr ([(''c'', ackPacket 0), (''c'', ackPacket 1)], Some 0, [False])
   \<and> (case ListenAndServe (boot []) buf0
             [(''c'', wrqPacket (str ''new.txt'')), (''c'', dataPacket 1 [104, 105])] of
         Inl pn \<Rightarrow> None
       | Inr (buf, m) \<Rightarrow> files m (str ''new.txt'')) = Some [104, 105]"
  apply (simp add: run_simps)
  apply (simp add: ackPacket_def)
  done

lemmas packet_defs = ackPacket_def dataPacket_def errorPacket_def toCString_def

text \<open>
  C8. A client that is reading \<open>foo.txt\<close> sends an ERROR packet. The session stays,
  with its stream open, and the server sends a datagram back: four zero bytes, the
  header of a response that was never filled in.
\<close>

theorem error_packet_is_answered:
  "observe ''c'' (ListenAndServe (boot [(str ''foo.txt'', [1, 2, 3])]) buf0
      [(''c'', rrqPacket (str ''foo.txt'')), (''c'', errorPacket 0 (str ''stop''))]) =
     Inr ([(''c'', dataPacket 1 [1, 2, 3]), (''c'', [0, 0, 0, 0])], Some 0, [False])"
  apply (simp add: run_simps)
  apply (simp add: packet_defs PutUint16_def)
  done

section \<open>Errors\<close>

lemma WriteTo_ok:
  "nextSendOk m \<Longrightarrow>
   \<exists>m'. WriteTo m pkt a = (None, m') \<and> outbox m' = outbox m @ [(a, pkt)]
      \<and> connections m' = connections m \<and> clients m' = clients m \<and> nclients m' = nclients m
      \<and> files m' = files m \<and> fds m' = fds m \<and> nfds m' = nfds m \<and> free m' = free m"
  by (auto simp add: WriteTo_def nextSendOk_def split: list.splits)

lemma WriteTo_fails:
  "\<not> nextSendOk m \<Longrightarrow> \<exists>m'. WriteTo m pkt a = (Some NetError, m')"
  by (auto simp add: WriteTo_def nextSendOk_def split: list.splits)

lemma packet_error: "packet \<lparr>opcode = opERROR, number = c, body = toCString msg\<rparr> = errorPacket c msg"
  by (simp add: packet_def errorPacket_def)

lemma handleError_effect:
  "if nextSendOk m
   then \<exists>m'. handleError m p err = Inr m'
      \<and> outbox m' =
          outbox m @ [(tid (clients m p),
                       errorPacket (code (asTftpError err)) (message (asTftpError err)))]
      \<and> clients m' = (clients m)(p := (clients m p)\<lparr>inited := True, lastPkt := True\<rparr>)
      \<and> connections m' = connections m
      \<and> fds m' = fds m \<and> nfds m' = nfds m
      \<and> files m' = files m
   else handleError m p err = Inl (PanicErr NetError)"
proof -
  let ?m1 = "m\<lparr>clients := (clients m)(p := (clients m p)\<lparr>inited := True, lastPkt := True\<rparr>)\<rparr>"
  let ?pkt = "errorPacket (code (asTftpError err)) (message (asTftpError err))"
  have alt: "handleError m p err =
      (case WriteTo ?m1 ?pkt (tid (clients m p)) of
         (Some e, m2) \<Rightarrow> Inl (PanicErr e)
       | (None, m2) \<Rightarrow> Inr m2)"
    by (simp add: handleError_def sendError_def sendResponse_def packet_error asTftpError_def Let_def)
  show ?thesis
  proof (cases "nextSendOk m")
    case True
    then have "nextSendOk ?m1" by (simp add: nextSendOk_def)
    from WriteTo_ok [OF this, of ?pkt "tid (clients m p)"] obtain m' where
      "WriteTo ?m1 ?pkt (tid (clients m p)) = (None, m')"
      "outbox m' = outbox m @ [(tid (clients m p), ?pkt)]"
      "connections m' = connections m" "clients m' = clients ?m1"
      "files m' = files m" "fds m' = fds m" "nfds m' = nfds m"
      by auto
    with True show ?thesis by (simp add: alt)
  next
    case False
    then have "\<not> nextSendOk ?m1" by (simp add: nextSendOk_def)
    from WriteTo_fails [OF this, of ?pkt "tid (clients m p)"] False show ?thesis
      by (auto simp add: alt)
  qed
qed

lemma keeps_refl: "keeps p m m"
  by (simp add: keeps_def)

lemma keeps_trans: "keeps p m m1 \<Longrightarrow> keeps p m1 m2 \<Longrightarrow> keeps p m m2"
  by (simp add: keeps_def)

lemma prepareFromRequest_keeps: "prepareFromRequest m p req = (e, m1) \<Longrightarrow> keeps p m m1"
  by (auto simp add: prepareFromRequest_def os_Open_def os_Create_def keeps_def Let_def
      split: if_splits sum.splits prod.splits)

lemma io_Copy_keeps: "io_Copy m f d = (e, m1) \<Longrightarrow> keeps p m m1"
  by (auto simp add: io_Copy_def keeps_def Let_def split: if_splits option.splits)

lemma handleRequest_keeps:
  assumes "handleRequest m p req = (e, m1)"
  shows "keeps p m m1
     \<or> (request.opcode req = opACK \<and> e = Some EndOfSession
        \<and> m1 = m\<lparr>connections := (connections m)(tid (clients m p) := None)\<rparr>)"
proof -
  obtain e0 m0 where pr: "prepareFromRequest m p req = (e0, m0)"
    by (cases "prepareFromRequest m p req")
  obtain e2 m2 where cp: "io_Copy m0 (file (clients m0 p)) (request.body req) = (e2, m2)"
    by (cases "io_Copy m0 (file (clients m0 p)) (request.body req)")
  obtain e3 m3 where cq: "io_Copy m (file (clients m p)) (request.body req) = (e3, m3)"
    by (cases "io_Copy m (file (clients m p)) (request.body req)")
  note k0 = prepareFromRequest_keeps [OF pr]
  note k2 = keeps_trans [OF k0 io_Copy_keeps [OF cp, of p]]
  note k3 = io_Copy_keeps [OF cq, of p]
  from assms k0 k2 k3 keeps_refl [of p m] show ?thesis
    by (auto simp add: handleRequest_def Let_def pr cp cq split: if_splits option.splits)
qed

lemma handleResponse_keeps: "handleResponse m p resp = (e, r, m1) \<Longrightarrow> keeps p m m1"
  by (auto simp add: handleResponse_def file_Read_def file_Close_def keeps_def Let_def
      split: if_splits option.splits prod.splits)

lemma WriteTo_keeps: "WriteTo m pkt a = (e, m1) \<Longrightarrow> keeps p m m1"
  by (auto simp add: WriteTo_def keeps_def split: list.splits if_splits)

lemma handleError_keeps:
  assumes "handleError m p err = Inr m1"
  shows "keeps p m m1 \<and> inited (clients m1 p) \<and> lastPkt (clients m1 p)"
proof -
  let ?m0 = "m\<lparr>clients := (clients m)(p := (clients m p)\<lparr>inited := True, lastPkt := True\<rparr>)\<rparr>"
  from assms obtain e where w: "WriteTo ?m0
      (errorPacket (code (asTftpError err)) (message (asTftpError err))) (tid (clients m p))
      = (e, m1)"
    by (auto simp add: handleError_def sendError_def sendResponse_def packet_error
        asTftpError_def Let_def split: prod.splits option.splits)
  have k: "keeps p m ?m0" by (simp add: keeps_def)
  from WriteTo_keeps [OF w, of p] k show ?thesis
    by (auto simp add: keeps_def)
qed

lemma newRequest_opcode: "newRequest n buf = Inr (Inr req) \<Longrightarrow> request.opcode req = buf ! 1"
  by (auto simp add: newRequest_def Let_def split: if_splits sum.splits prod.splits)

lemma serve_keeps:
  assumes "serve m p n buf = Inr (e, m1)"
  shows "keeps p m m1
     \<or> (buf ! 1 = opACK \<and> e = Some EndOfSession
        \<and> m1 = m\<lparr>connections := (connections m)(tid (clients m p) := None)\<rparr>)"
proof (cases "newRequest n buf")
  case (Inl pn)
  with assms show ?thesis by (simp add: serve_def)
next
  case (Inr r)
  show ?thesis
  proof (cases r)
    case (Inl err)
    with Inr assms show ?thesis by (simp add: serve_def keeps_refl)
  next
    case req: (Inr req)
    obtain e1 m' where h: "handleRequest m p req = (e1, m')"
      by (cases "handleRequest m p req")
    have op: "request.opcode req = buf ! 1"
      using Inr req by (simp add: newRequest_opcode)
    from handleRequest_keeps [OF h] show ?thesis
    proof
      assume del: "request.opcode req = opACK \<and> e1 = Some EndOfSession
        \<and> m' = m\<lparr>connections := (connections m)(tid (clients m p) := None)\<rparr>"
      with Inr req h assms op show ?thesis by (auto simp add: serve_def)
    next
      assume k1: "keeps p m m'"
      show ?thesis
      proof (cases e1)
        case (Some err)
        with Inr req h assms k1 show ?thesis by (simp add: serve_def)
      next
        case None
        obtain e2 r2 m2 where
          g: "handleResponse m' p (newResponse (clients m' p) req) = (e2, r2, m2)"
          by (cases "handleResponse m' p (newResponse (clients m' p) req)")
        note k2 = keeps_trans [OF k1 handleResponse_keeps [OF g]]
        show ?thesis
        proof (cases e2)
          case (Some err)
          with Inr req h None g assms k2 show ?thesis by (simp add: serve_def)
        next
          case n2: None
          obtain e3 m3 where w: "WriteTo m2 (packet r2) (tid (clients m2 p)) = (e3, m3)"
            by (cases "WriteTo m2 (packet r2) (tid (clients m2 p))")
          from keeps_trans [OF k2 WriteTo_keeps [OF w, of p]] Inr req h None g n2 w assms
          show ?thesis by (simp add: serve_def sendResponse_def)
        qed
      qed
    qed
  qed
qed

lemma tableOk_keeps: "tableOk m \<Longrightarrow> keeps q m m' \<Longrightarrow> tableOk m'"
  unfolding tableOk_def keeps_def by metis

lemma tableOk_delete: "tableOk m \<Longrightarrow> tableOk (m\<lparr>connections := (connections m)(b := None)\<rparr>)"
  by (simp add: tableOk_def)

lemma tableOk_new:
  "tableOk m \<Longrightarrow> connections m b = None \<Longrightarrow>
   tableOk (m\<lparr>clients := (clients m)(nclients m := newClient b), nclients := Suc (nclients m),
              connections := (connections m)(b \<mapsto> nclients m)\<rparr>)"
  by (auto simp add: tableOk_def newClient_def less_Suc_eq)

lemma marked_step:
  assumes "marked m a p" "b \<noteq> a \<or> buf ! 1 \<noteq> opACK" "handleConnection m b n buf = Inr m'"
  shows "marked m' a p"
proof (cases "connections m b")
  case (Some q)
  from assms(1) Some have tq: "tid (clients m q) = b" and tp: "tid (clients m p) = a"
    by (simp_all add: marked_def tableOk_def)
  obtain e m1 where s: "serve m q n buf = Inr (e, m1)"
    using assms(3) Some by (auto simp add: handleConnection_def split: sum.splits)
  have fin: "m' = m1 \<or> (e \<noteq> Some EndOfSession \<and> (\<exists>err. handleError m1 q err = Inr m'))"
    using assms(3) Some s by (auto simp add: handleConnection_def split: option.splits if_splits)
  from serve_keeps [OF s] show ?thesis
  proof
    assume k: "keeps q m m1"
    have "keeps q m m'"
      using fin k handleError_keeps keeps_trans by blast
    with assms(1) show ?thesis
      using tableOk_keeps [of m q m'] by (auto simp add: marked_def keeps_def)
  next
    assume d: "buf ! 1 = opACK \<and> e = Some EndOfSession
        \<and> m1 = m\<lparr>connections := (connections m)(tid (clients m q) := None)\<rparr>"
    with assms(2) have ne: "b \<noteq> a" by simp
    from d fin have "m' = m\<lparr>connections := (connections m)(b := None)\<rparr>"
      by (simp add: tq)
    with assms(1) ne show ?thesis
      by (simp add: marked_def tableOk_delete)
  qed
next
  case None
  let ?m0 = "m\<lparr>clients := (clients m)(nclients m := newClient b), nclients := Suc (nclients m),
              connections := (connections m)(b \<mapsto> nclients m)\<rparr>"
  let ?q = "nclients m"
  from assms(1) None have ne: "b \<noteq> a" and lt: "p < nclients m"
    by (auto simp add: marked_def tableOk_def)
  have m0: "marked ?m0 a p"
    using assms(1) None ne lt tableOk_new [of m b] by (simp add: marked_def)
  obtain e m1 where s: "serve ?m0 ?q n buf = Inr (e, m1)"
    using assms(3) None by (auto simp add: handleConnection_def split: sum.splits)
  have fin: "m' = m1 \<or> (e \<noteq> Some EndOfSession \<and> (\<exists>err. handleError m1 ?q err = Inr m'))"
    using assms(3) None s by (auto simp add: handleConnection_def split: option.splits if_splits)
  from serve_keeps [OF s] show ?thesis
  proof
    assume k: "keeps ?q ?m0 m1"
    have k': "keeps ?q ?m0 m'"
      using fin k handleError_keeps keeps_trans by blast
    from lt have "p \<noteq> ?q" by simp
    with m0 k' show ?thesis
      using tableOk_keeps [of ?m0 ?q m'] by (auto simp add: marked_def keeps_def)
  next
    assume d: "buf ! 1 = opACK \<and> e = Some EndOfSession
        \<and> m1 = ?m0\<lparr>connections := (connections ?m0)(tid (clients ?m0 ?q) := None)\<rparr>"
    with fin have "m' = ?m0\<lparr>connections := (connections ?m0)(b := None)\<rparr>"
      by (simp add: newClient_def)
    with m0 ne show ?thesis
      using tableOk_delete [of ?m0 b] by (simp add: marked_def)
  qed
qed

lemma marked_run:
  "marked m a p \<Longrightarrow> noAckFrom a buf ds \<Longrightarrow> ListenAndServe m buf ds = Inr (buf', m')
   \<Longrightarrow> marked m' a p"
proof (induction m buf ds rule: ListenAndServe.induct)
  case (1 m buf)
  then show ?case by simp
next
  case (2 m buf addr d ds)
  obtain n buf1 where rf: "ReadFrom buf d = (n, buf1)" by (cases "ReadFrom buf d")
  from "2.prems"(3) rf obtain m1 where
    h: "handleConnection m addr (int n) buf1 = Inr m1"
    and r: "ListenAndServe m1 buf1 ds = Inr (buf', m')"
    by (auto split: sum.splits)
  from "2.prems"(2) rf have c: "addr \<noteq> a \<or> buf1 ! 1 \<noteq> opACK" and rest: "noAckFrom a buf1 ds"
    by simp_all
  from marked_step [OF "2.prems"(1) c h] have "marked m1 a p" .
  from "2.IH" [OF rf [symmetric] h this rest r] show ?case .
qed

lemma ack_deletes:
  assumes "marked m a p" "newRequest n buf = Inr (Inr req)" "request.opcode req = opACK"
  shows "handleConnection m a n buf = Inr (m\<lparr>connections := (connections m)(a := None)\<rparr>)"
proof -
  from assms(1) have t: "tid (clients m p) = a" "connections m a = Some p"
    "inited (clients m p)" "lastPkt (clients m p)"
    by (simp_all add: marked_def tableOk_def)
  with assms(2,3) show ?thesis
    by (simp add: handleConnection_def serve_def handleRequest_def)
qed

text \<open>
  C4, as the code has it. \<open>handleError\<close> marks the client initialised and at its last
  packet, whatever it was, and writes one ERROR packet to its address; where the write
  fails the server panics. It leaves the table as it was. The entry then stays, marked,
  through whatever datagrams the server handles next, from any address, as long as none
  from the client's own address has the opcode byte of an ACK; a datagram from that
  address that decodes as an ACK, of any block number, deletes the entry, and nothing
  is sent for it.
\<close>

theorem handleError_marks_and_answers:
  assumes "tableOk m" "connections m a = Some p" "noAckFrom a buf ds"
  shows "if nextSendOk m
   then \<exists>m'. handleError m p err = Inr m'
      \<and> outbox m' =
          outbox m @ [(a, errorPacket (code (asTftpError err)) (message (asTftpError err)))]
      \<and> clients m' = (clients m)(p := (clients m p)\<lparr>inited := True, lastPkt := True\<rparr>)
      \<and> connections m' = connections m
      \<and> (\<forall>buf' m''. ListenAndServe m' buf ds = Inr (buf', m'') \<longrightarrow>
            connections m'' a = Some p \<and> inited (clients m'' p) \<and> lastPkt (clients m'' p)
            \<and> (\<forall>n bf req. newRequest n bf = Inr (Inr req) \<and> request.opcode req = opACK \<longrightarrow>
                  handleConnection m'' a n bf =
                    Inr (m''\<lparr>connections := (connections m'')(a := None)\<rparr>)))
   else handleError m p err = Inl (PanicErr NetError)"
proof (cases "nextSendOk m")
  case False
  with handleError_effect [of m p err] show ?thesis by simp
next
  case True
  from assms(1,2) have t: "tid (clients m p) = a" by (simp add: tableOk_def)
  from handleError_effect [of m p err] True obtain m' where
    he: "handleError m p err = Inr m'"
    and out: "outbox m' = outbox m @
        [(a, errorPacket (code (asTftpError err)) (message (asTftpError err)))]"
    and cl: "clients m' = (clients m)(p := (clients m p)\<lparr>inited := True, lastPkt := True\<rparr>)"
    and co: "connections m' = connections m"
    by (auto simp add: t)
  from handleError_keeps [OF he] assms(1,2) have mk: "marked m' a p"
    using tableOk_keeps [of m p m'] by (simp add: marked_def keeps_def)
  have "connections m'' a = Some p \<and> inited (clients m'' p) \<and> lastPkt (clients m'' p)
      \<and> (\<forall>n bf req. newRequest n bf = Inr (Inr req) \<and> request.opcode req = opACK \<longrightarrow>
            handleConnection m'' a n bf = Inr (m''\<lparr>connections := (connections m'')(a := None)\<rparr>))"
    if run: "ListenAndServe m' buf ds = Inr (buf', m'')" for buf' m''
  proof -
    from marked_run [OF mk assms(3) run] have mk': "marked m'' a p" .
    then show ?thesis using ack_deletes [OF mk'] by (auto simp add: marked_def)
  qed
  with True he out cl co show ?thesis by auto
qed

theorem handleError_marks_and_answers_witness:
  "tableOk (met ''c'') \<and> connections (met ''c'') ''c'' = Some 0
   \<and> noAckFrom ''c'' buf0 [(''c'', [0, 9, 0, 0]), (''d'', ackPacket 1)]
   \<and> nextSendOk (met ''c'')
   \<and> (\<exists>m' buf' m''.
        handleError (met ''c'') 0 (Errorf (str ''Incorrect c string'')) = Inr m'
        \<and> outbox m' = [(''c'', errorPacket ecNDEF (str ''Unexpected error.''))]
        \<and> clients m' 0 =
            \<lparr>tid = ''c'', file = None, inited = True, lastPkt = True, blockSize = 0, bytesLeft = 0\<rparr>
        \<and> ListenAndServe m' buf0 [(''c'', [0, 9, 0, 0]), (''d'', ackPacket 1)] = Inr (buf', m'')
        \<and> connections m'' ''c'' = Some 0
        \<and> handleConnection m'' ''c'' 4 (ackPacket 7 @ drop 4 buf') =
            Inr (m''\<lparr>connections := (connections m'')(''c'' := None)\<rparr>))
   \<and> handleError ((met ''c'')\<lparr>sendq := [False]\<rparr>) 0 (Errorf (str ''Incorrect c string''))
       = Inl (PanicErr NetError)"
proof -
  let ?err = "Errorf (str ''Incorrect c string'')"
  let ?ds = "[(''c'', [0, 9, 0, 0]), (''d'', ackPacket 1)]"
  have t: "tableOk (met ''c'')" "tableOk ((met ''c'')\<lparr>sendq := [False]\<rparr>)"
    by (simp_all add: tableOk_def met_def boot_def newClient_def)
  have c: "connections (met ''c'') ''c'' = Some 0"
    "connections ((met ''c'')\<lparr>sendq := [False]\<rparr>) ''c'' = Some 0"
    by (simp_all add: met_def boot_def)
  have na: "noAckFrom ''c'' buf0 ?ds"
    by (simp add: ReadFrom_fits buf0_def)
  have ok: "nextSendOk (met ''c'')" by (simp add: nextSendOk_def met_def boot_def)
  have no: "\<not> nextSendOk ((met ''c'')\<lparr>sendq := [False]\<rparr>)" by (simp add: nextSendOk_def)
  have e: "asTftpError ?err = \<lparr>code = ecNDEF, message = str ''Unexpected error.''\<rparr>"
    by (simp add: asTftpError_def newTFTPError_def)
  have b: "outbox (met ''c'') = []" "clients (met ''c'') 0 = newClient ''c''"
    by (simp_all add: met_def boot_def)
  have run: "(case handleError (met ''c'') 0 ?err of
        Inl pn \<Rightarrow> False
      | Inr m' \<Rightarrow> (case ListenAndServe m' buf0 ?ds of Inl pn \<Rightarrow> False | Inr r \<Rightarrow> True))"
    by (simp add: run_simps met_def)
  from handleError_marks_and_answers [OF t(1) c(1) na, of ?err] ok obtain m' where
    he: "handleError (met ''c'') 0 ?err = Inr m'"
    and out: "outbox m' = [(''c'', errorPacket ecNDEF (str ''Unexpected error.''))]"
    and cl: "clients m' 0 =
        \<lparr>tid = ''c'', file = None, inited = True, lastPkt = True, blockSize = 0, bytesLeft = 0\<rparr>"
    and later: "\<And>buf' m''. ListenAndServe m' buf0 ?ds = Inr (buf', m'') \<Longrightarrow>
        connections m'' ''c'' = Some 0
        \<and> (\<forall>n bf req. newRequest n bf = Inr (Inr req) \<and> request.opcode req = opACK \<longrightarrow>
              handleConnection m'' ''c'' n bf =
                Inr (m''\<lparr>connections := (connections m'')(''c'' := None)\<rparr>))"
    by (auto simp add: e b newClient_def)
  from run he obtain buf' m'' where r: "ListenAndServe m' buf0 ?ds = Inr (buf', m'')"
    by (auto split: sum.splits)
  from later [OF r] newRequest_ack [of 7 "drop 4 buf'"]
  have d: "connections m'' ''c'' = Some 0"
    "handleConnection m'' ''c'' 4 (ackPacket 7 @ drop 4 buf') =
       Inr (m''\<lparr>connections := (connections m'')(''c'' := None)\<rparr>)"
    by auto
  from handleError_marks_and_answers [OF t(2) c(2) na, of ?err] no
  have pn: "handleError ((met ''c'')\<lparr>sendq := [False]\<rparr>) 0 ?err = Inl (PanicErr NetError)"
    by simp
  from t(1) c(1) na ok he out cl r d pn show ?thesis by blast
qed

text \<open>
  C4 as the specification states it fails: a client that is reading \<open>foo.txt\<close>
  sends an opcode 9 and gets the error 4; afterwards the table still holds the session
  and its stream is still open.
\<close>

theorem error_leaves_session_counterexample:
  "observe ''c'' (ListenAndServe (boot [(str ''foo.txt'', [1, 2, 3])]) buf0
      [(''c'', rrqPacket (str ''foo.txt'')), (''c'', [0, 9, 0, 0])]) =
     Inr ([(''c'', dataPacket 1 [1, 2, 3]),
           (''c'', errorPacket ecILL (str ''Illegal TFTP operation.''))], Some 0, [False])"
  apply (simp add: run_simps)
  apply (simp add: packet_defs PutUint16_def)
  done

section \<open>Requests from an address without a session\<close>

lemma handleConnection_new:
  assumes "connections m a = None"
  shows "handleConnection m a n buf =
     (case serve (m\<lparr>clients := (clients m)(nclients m := newClient a),
                    nclients := Suc (nclients m),
                    connections := (connections m)(a \<mapsto> nclients m)\<rparr>) (nclients m) n buf of
        Inl pn \<Rightarrow> Inl pn
      | Inr (None, m1) \<Rightarrow> Inr m1
      | Inr (Some err, m1) \<Rightarrow>
          if err \<noteq> EndOfSession then handleError m1 (nclients m) err else Inr m1)"
  using assms by (simp add: handleConnection_def)

lemma tftpErrors_simps:
  "newTFTPError ecILL [] = \<lparr>code = ecILL, message = str ''Illegal TFTP operation.''\<rparr>"
  "newTFTPError ecUTID [] = \<lparr>code = ecUTID, message = str ''Unknown transfer ID.''\<rparr>"
  "newTFTPError ecFEX [] = \<lparr>code = ecFEX, message = str ''File already exists.''\<rparr>"
  by (simp_all add: newTFTPError_def tftpErrors_def)

lemma new_client_refused:
  assumes "connections m a = None" "nextSendOk m"
    and "serve (m\<lparr>clients := (clients m)(nclients m := newClient a),
                    nclients := Suc (nclients m),
                    connections := (connections m)(a \<mapsto> nclients m)\<rparr>) (nclients m) n buf
         = Inr (Some (TftpError e),
                m\<lparr>clients := (clients m)(nclients m := newClient a),
                  nclients := Suc (nclients m),
                  connections := (connections m)(a \<mapsto> nclients m)\<rparr>)"
  shows "\<exists>m'. handleConnection m a n buf = Inr m'
     \<and> outbox m' = outbox m @ [(a, errorPacket (code e) (message e))]
     \<and> connections m' = (connections m)(a \<mapsto> nclients m)
     \<and> clients m' (nclients m) =
         \<lparr>tid = a, file = None, inited = True, lastPkt = True, blockSize = 0, bytesLeft = 0\<rparr>
     \<and> files m' = files m \<and> fds m' = fds m \<and> nfds m' = nfds m"
proof -
  let ?m0 = "m\<lparr>clients := (clients m)(nclients m := newClient a),
                nclients := Suc (nclients m),
                connections := (connections m)(a \<mapsto> nclients m)\<rparr>"
  have ok: "nextSendOk ?m0" using assms(2) by (simp add: nextSendOk_def)
  have hc: "handleConnection m a n buf = handleError ?m0 (nclients m) (TftpError e)"
    by (simp add: handleConnection_new [OF assms(1)] assms(3))
  from handleError_effect [of ?m0 "nclients m" "TftpError e"] ok show ?thesis
    by (auto simp add: hc asTftpError_def newClient_def)
qed

text \<open>
  C5, as the code has it. A request that is neither RRQ nor WRQ, from an address the
  table does not hold, is answered with one ERROR packet: illegal operation where the
  opcode is outside 1..5, unknown transfer ID where it is DATA, ACK or ERROR. No file
  is touched, but the table then holds a client for the address, marked initialised
  and at its last packet, with no stream.
\<close>

theorem unknown_client_refused:
  assumes "connections m a = None" "nextSendOk m"
    and "newRequest n buf = Inr (Inr req)"
    and "request.opcode req \<noteq> opRRQ" "request.opcode req \<noteq> opWRQ"
  shows "\<exists>m'. handleConnection m a n buf = Inr m'
     \<and> outbox m' = outbox m @
          [(a, if request.opcode req < opRRQ \<or> request.opcode req > opERROR
               then errorPacket ecILL (str ''Illegal TFTP operation.'')
               else errorPacket ecUTID (str ''Unknown transfer ID.''))]
     \<and> connections m' = (connections m)(a \<mapsto> nclients m)
     \<and> clients m' (nclients m) =
         \<lparr>tid = a, file = None, inited = True, lastPkt = True, blockSize = 0, bytesLeft = 0\<rparr>
     \<and> files m' = files m \<and> fds m' = fds m \<and> nfds m' = nfds m"
proof -
  let ?m0 = "m\<lparr>clients := (clients m)(nclients m := newClient a),
                nclients := Suc (nclients m),
                connections := (connections m)(a \<mapsto> nclients m)\<rparr>"
  let ?e = "if request.opcode req < opRRQ \<or> request.opcode req > opERROR
            then newTFTPError ecILL [] else newTFTPError ecUTID []"
  have "serve ?m0 (nclients m) n buf = Inr (Some (TftpError ?e), ?m0)"
    using assms(3-5) by (simp add: serve_def handleRequest_def newClient_def)
  from new_client_refused [OF assms(1,2) this] show ?thesis
    by (auto simp add: tftpErrors_simps)
qed

theorem unknown_client_refused_witness:
  "connections (boot []) ''c'' = None \<and> nextSendOk (boot [])
   \<and> newRequest 4 (ackPacket 1 @ replicate 2044 0) =
       Inr (Inr \<lparr>numRead = 4, request.body = [], request.opcode = opACK, request.number = 1,
                 filename = [], mode = [], errorMessage = []\<rparr>)
   \<and> (\<exists>m'. handleConnection (boot []) ''c'' 4 (ackPacket 1 @ replicate 2044 0) = Inr m'
        \<and> outbox m' = [(''c'', errorPacket ecUTID (str ''Unknown transfer ID.''))]
        \<and> connections m' ''c'' = Some 0
        \<and> clients m' 0 =
            \<lparr>tid = ''c'', file = None, inited = True, lastPkt = True, blockSize = 0, bytesLeft = 0\<rparr>)"
proof -
  have h1: "connections (boot []) ''c'' = None" by (simp add: boot_def)
  have h2: "nextSendOk (boot [])" by (simp add: nextSendOk_def boot_def)
  have h3: "newRequest 4 (ackPacket 1 @ replicate 2044 0) =
       Inr (Inr \<lparr>numRead = 4, request.body = [], request.opcode = opACK, request.number = 1,
                 filename = [], mode = [], errorMessage = []\<rparr>)"
    by (rule newRequest_ack)
  have b: "outbox (boot []) = []" "nclients (boot []) = 0" by (simp_all add: boot_def)
  from unknown_client_refused [OF h1 h2 h3] obtain m' where
    "handleConnection (boot []) ''c'' 4 (ackPacket 1 @ replicate 2044 0) = Inr m'"
    "outbox m' = [(''c'', errorPacket ecUTID (str ''Unknown transfer ID.''))]"
    "connections m' = (connections (boot []))(''c'' \<mapsto> 0)"
    "clients m' 0 =
       \<lparr>tid = ''c'', file = None, inited = True, lastPkt = True, blockSize = 0, bytesLeft = 0\<rparr>"
    by (auto simp add: b)
  with h1 h2 h3 show ?thesis by auto
qed

text \<open>
  C5 as the specification states it fails: an ACK from an address without a session is
  answered with the error 5, and the table then holds a client for the address; an
  opcode 0 from such an address is answered with the error 4.
\<close>

theorem unknown_client_counterexample:
  "observe ''c'' (ListenAndServe (boot []) buf0 [(''c'', ackPacket 1)]) =
     Inr ([(''c'', errorPacket ecUTID (str ''Unknown transfer ID.''))], Some 0, [])
   \<and> observe ''c'' (ListenAndServe (boot []) buf0 [(''c'', [0, 0, 0, 0])]) =
     Inr ([(''c'', errorPacket ecILL (str ''Illegal TFTP operation.''))], Some 0, [])"
  apply (simp add: run_simps)
  apply (simp add: packet_defs PutUint16_def)
  done

section \<open>Write requests for a file that exists\<close>

text \<open>
  C7, as the code has it. A WRQ that names a file that exists, from an address the
  table does not hold, is answered with the error 6, file already exists; no file is
  created or changed and no stream is opened.
\<close>

theorem wrq_existing_refused:
  assumes "connections m a = None" "nextSendOk m" "files m f = Some c" "0 \<notin> set f"
  shows "\<exists>m'. handleConnection m a n (wrqPacket f @ junk) = Inr m'
     \<and> outbox m' = outbox m @ [(a, errorPacket ecFEX (str ''File already exists.''))]
     \<and> files m' = files m \<and> fds m' = fds m \<and> nfds m' = nfds m"
proof -
  let ?m0 = "m\<lparr>clients := (clients m)(nclients m := newClient a),
                nclients := Suc (nclients m),
                connections := (connections m)(a \<mapsto> nclients m)\<rparr>"
  have "serve ?m0 (nclients m) n (wrqPacket f @ junk)
      = Inr (Some (TftpError (newTFTPError ecFEX [])), ?m0)"
    using assms(3,4)
    by (simp add: serve_def newRequest_wrq handleRequest_def newClient_def
        prepareFromRequest_def os_Stat_def pathExists_def)
  from new_client_refused [OF assms(1,2) this] show ?thesis
    by (auto simp add: tftpErrors_simps)
qed

theorem wrq_existing_refused_witness:
  "connections (boot [(str ''foo.txt'', [1, 2, 3])]) ''c'' = None
   \<and> nextSendOk (boot [(str ''foo.txt'', [1, 2, 3])])
   \<and> files (boot [(str ''foo.txt'', [1, 2, 3])]) (str ''foo.txt'') = Some [1, 2, 3]
   \<and> 0 \<notin> set (str ''foo.txt'')
   \<and> (\<exists>m'. handleConnection (boot [(str ''foo.txt'', [1, 2, 3])]) ''c'' 16
              (wrqPacket (str ''foo.txt'') @ replicate 2032 0) = Inr m'
        \<and> outbox m' = [(''c'', errorPacket ecFEX (str ''File already exists.''))]
        \<and> files m' (str ''foo.txt'') = Some [1, 2, 3])"
proof -
  let ?m = "boot [(str ''foo.txt'', [1, 2, 3])]"
  have h1: "connections ?m ''c'' = None" by (simp add: boot_def)
  have h2: "nextSendOk ?m" by (simp add: nextSendOk_def boot_def)
  have h3: "files ?m (str ''foo.txt'') = Some [1, 2, 3]" by (simp add: boot_def)
  have h4: "0 \<notin> set (str ''foo.txt'')" by (simp add: str_def)
  have b: "outbox ?m = []" by (simp add: boot_def)
  from wrq_existing_refused [OF h1 h2 h3 h4, of 16 "replicate 2032 0"] obtain m' where
    "handleConnection ?m ''c'' 16 (wrqPacket (str ''foo.txt'') @ replicate 2032 0) = Inr m'"
    "outbox m' = [(''c'', errorPacket ecFEX (str ''File already exists.''))]"
    "files m' = files ?m"
    by (auto simp add: b)
  with h1 h2 h3 h4 show ?thesis by auto
qed

text \<open>
  C7 as the specification states it fails: the first WRQ for \<open>foo.txt\<close>, which
  exists, is refused; the same WRQ sent again from the same address is acknowledged
  with block number 0.
\<close>

theorem wrq_existing_counterexample:
  "observe ''c'' (ListenAndServe (boot [(str ''foo.txt'', [1, 2, 3])]) buf0
      [(''c'', wrqPacket (str ''foo.txt'')), (''c'', wrqPacket (str ''foo.txt''))]) =
     Inr ([(''c'', errorPacket ecFEX (str ''File already exists.'')), (''c'', ackPacket 0)],
          Some 0, [])"
  apply (simp add: run_simps)
  apply (simp add: packet_defs PutUint16_def)
  done

section \<open>Panics\<close>

lemma newRequest_no_panic:
  assumes "length buf = 2048" "n \<le> 2048" "4 \<le> n \<or> (buf ! 1 \<noteq> opDATA \<and> buf ! 1 \<noteq> opACK)"
  shows "\<exists>r. newRequest n buf = Inr r"
  using assms
  by (auto simp add: newRequest_def Let_def split: sum.splits prod.splits)

lemma prepareFromRequest_socket:
  "prepareFromRequest m p req = (e, m1) \<Longrightarrow> outbox m1 = outbox m \<and> sendq m1 = sendq m"
  by (auto simp add: prepareFromRequest_def os_Open_def os_Create_def Let_def
      split: if_splits sum.splits prod.splits)

lemma io_Copy_socket:
  "io_Copy m f d = (e, m1) \<Longrightarrow> outbox m1 = outbox m \<and> sendq m1 = sendq m"
  by (auto simp add: io_Copy_def Let_def split: if_splits option.splits)

lemma handleRequest_socket:
  assumes "handleRequest m p req = (e, m1)"
  shows "outbox m1 = outbox m \<and> sendq m1 = sendq m"
proof -
  obtain e0 m0 where pr: "prepareFromRequest m p req = (e0, m0)"
    by (cases "prepareFromRequest m p req")
  obtain e2 m2 where cp: "io_Copy m0 (file (clients m0 p)) (request.body req) = (e2, m2)"
    by (cases "io_Copy m0 (file (clients m0 p)) (request.body req)")
  obtain e3 m3 where cq: "io_Copy m (file (clients m p)) (request.body req) = (e3, m3)"
    by (cases "io_Copy m (file (clients m p)) (request.body req)")
  from assms prepareFromRequest_socket [OF pr] io_Copy_socket [OF cp] io_Copy_socket [OF cq]
  show ?thesis
    by (auto simp add: handleRequest_def Let_def pr cp cq split: if_splits option.splits)
qed

lemma handleResponse_socket:
  "handleResponse m p resp = (e, r, m1) \<Longrightarrow> outbox m1 = outbox m \<and> sendq m1 = sendq m"
  by (auto simp add: handleResponse_def file_Read_def file_Close_def Let_def
      split: if_splits option.splits prod.splits)

lemma WriteTo_cases:
  "(\<exists>m1. WriteTo m pkt a = (None, m1) \<and> outbox m1 = outbox m @ [(a, pkt)])
   \<or> (\<exists>m1. WriteTo m pkt a = (Some NetError, m1) \<and> outbox m1 = outbox m
        \<and> set (sendq m1) \<subseteq> set (sendq m) \<and> False \<in> set (sendq m))"
  by (auto simp add: WriteTo_def split: list.splits)

lemma finish_cases:
  assumes "outbox m1 = outbox m" "set (sendq m1) \<subseteq> set (sendq m)"
  shows "(\<exists>m' out. (if err \<noteq> EndOfSession then handleError m1 p err else Inr m1) = Inr m'
            \<and> outbox m' = outbox m @ out \<and> length out \<le> 1)
       \<or> ((if err \<noteq> EndOfSession then handleError m1 p err else Inr m1) = Inl (PanicErr NetError)
            \<and> False \<in> set (sendq m))"
proof (cases "err = EndOfSession")
  case True
  with assms(1) show ?thesis by simp
next
  case False
  show ?thesis
  proof (cases "nextSendOk m1")
    case True
    with handleError_effect [of m1 p err] obtain m' where
      "handleError m1 p err = Inr m'"
      "outbox m' = outbox m1 @ [(tid (clients m1 p),
          errorPacket (code (asTftpError err)) (message (asTftpError err)))]"
      by auto
    with False assms(1) show ?thesis by simp
  next
    case n: False
    then have "False \<in> set (sendq m1)"
      by (auto simp add: nextSendOk_def split: list.splits)
    with assms(2) have "False \<in> set (sendq m)" by blast
    with handleError_effect [of m1 p err] n False show ?thesis by simp
  qed
qed

lemma serve_cases:
  assumes "length buf = 2048" "n \<le> 2048" "4 \<le> n \<or> (buf ! 1 \<noteq> opDATA \<and> buf ! 1 \<noteq> opACK)"
  shows "(\<exists>m1. serve m p n buf = Inr (None, m1) \<and> (\<exists>x. outbox m1 = outbox m @ [x]))
       \<or> (\<exists>err m1. serve m p n buf = Inr (Some err, m1) \<and> outbox m1 = outbox m
            \<and> set (sendq m1) \<subseteq> set (sendq m))"
proof -
  from newRequest_no_panic [OF assms] obtain r where r: "newRequest n buf = Inr r" by blast
  show ?thesis
  proof (cases r)
    case (Inl err)
    with r show ?thesis by (simp add: serve_def)
  next
    case (Inr req)
    obtain e1 m1 where h: "handleRequest m p req = (e1, m1)"
      by (cases "handleRequest m p req")
    note s1 = handleRequest_socket [OF h]
    show ?thesis
    proof (cases e1)
      case (Some err)
      with r Inr h s1 show ?thesis by (simp add: serve_def)
    next
      case None
      obtain e2 r2 m2 where g: "handleResponse m1 p (newResponse (clients m1 p) req) = (e2, r2, m2)"
        by (cases "handleResponse m1 p (newResponse (clients m1 p) req)")
      note s2 = handleResponse_socket [OF g]
      show ?thesis
      proof (cases e2)
        case (Some err)
        with r Inr h None g s1 s2 show ?thesis by (simp add: serve_def)
      next
        case n2: None
        have sv: "serve m p n buf = Inr (WriteTo m2 (packet r2) (tid (clients m2 p)))"
          using r Inr h None g n2 by (simp add: serve_def sendResponse_def)
        from WriteTo_cases [of m2 "packet r2" "tid (clients m2 p)"] s1 s2 show ?thesis
          by (auto simp add: sv)
      qed
    qed
  qed
qed

text \<open>
  C2, as the code has it. A datagram in the buffer of 2048 bytes that has at least
  four bytes, or whose opcode byte is neither DATA nor ACK, never takes a slice out of
  range. Handling it either ends with at most one
  datagram sent, a response or an ERROR packet, or it ends in the panic of
  \<open>handleError\<close>, which happens only when a write to the socket fails.
\<close>

theorem datagram_handled_or_send_panic:
  assumes "length buf = 2048" "n \<le> 2048"
    and "4 \<le> n \<or> (buf ! 1 \<noteq> opDATA \<and> buf ! 1 \<noteq> opACK)"
  shows "(\<exists>m' out. handleConnection m a n buf = Inr m'
            \<and> outbox m' = outbox m @ out \<and> length out \<le> 1)
       \<or> (handleConnection m a n buf = Inl (PanicErr NetError) \<and> False \<in> set (sendq m))"
proof -
  let ?m0 = "case connections m a of
               Some q \<Rightarrow> m
             | None \<Rightarrow> m\<lparr>clients := (clients m)(nclients m := newClient a),
                          nclients := Suc (nclients m),
                          connections := (connections m)(a \<mapsto> nclients m)\<rparr>"
  let ?p = "case connections m a of Some q \<Rightarrow> q | None \<Rightarrow> nclients m"
  have hc: "handleConnection m a n buf =
      (case serve ?m0 ?p n buf of
         Inl pn \<Rightarrow> Inl pn
       | Inr (None, m1) \<Rightarrow> Inr m1
       | Inr (Some err, m1) \<Rightarrow>
           if err \<noteq> EndOfSession then handleError m1 ?p err else Inr m1)"
    by (simp add: handleConnection_def split: option.splits)
  have m0: "outbox ?m0 = outbox m" "sendq ?m0 = sendq m"
    by (simp_all split: option.splits)
  from serve_cases [OF assms, of ?m0 ?p] show ?thesis
  proof (elim disjE exE conjE)
    fix m1 x
    assume "serve ?m0 ?p n buf = Inr (None, m1)" "outbox m1 = outbox ?m0 @ [x]"
    then show ?thesis by (simp add: hc m0)
  next
    fix err m1
    assume s: "serve ?m0 ?p n buf = Inr (Some err, m1)" "outbox m1 = outbox ?m0"
      "set (sendq m1) \<subseteq> set (sendq ?m0)"
    from finish_cases [of m1 m err ?p] s(2,3) show ?thesis
      by (simp add: hc s(1) m0)
  qed
qed

theorem datagram_handled_or_send_panic_witness:
  "length (ackPacket 1 @ replicate 2044 0) = 2048
   \<and> (\<exists>m' out. handleConnection (boot []) ''c'' 4 (ackPacket 1 @ replicate 2044 0) = Inr m'
        \<and> outbox m' = out \<and> length out \<le> 1)"
proof -
  have h1: "length (ackPacket 1 @ replicate 2044 0) = 2048" by simp
  have h2: "(4 :: int) \<le> 2048"
    "(4 :: int) \<le> 4 \<or> ((ackPacket 1 @ replicate 2044 0) ! 1 \<noteq> opDATA
       \<and> (ackPacket 1 @ replicate 2044 0) ! 1 \<noteq> opACK)" by simp_all
  have b: "outbox (boot []) = []" "sendq (boot []) = []" by (simp_all add: boot_def)
  from datagram_handled_or_send_panic [OF h1 h2, of "boot []" "''c''"] h1 show ?thesis
    by (simp add: b)
qed

text \<open>
  C2 as the specification states it fails: a datagram of the two bytes \<open>00 03\<close> ends
  the process in a slice bound out of range, and where the socket refuses the ERROR
  packet \<open>handleError\<close> panics.
\<close>

theorem crash_counterexample:
  "ListenAndServe (boot []) buf0 [(''c'', [0, 3])] = Inl SliceBounds
   \<and> ListenAndServe ((boot [])\<lparr>sendq := [False]\<rparr>) buf0 [(''c'', [0, 9, 0, 0])] =
       Inl (PanicErr NetError)"
  apply (simp add: run_simps)
  done

end
